theory Spec2Isabelle
  imports Complex_Main "HOL-Library.Multiset"
begin

section \<open>Book Review API: a shallow embedding of \<^verbatim>\<open>app_start.py\<close>\<close>

text \<open>
  The program is a set of request handlers over two tables, \<^verbatim>\<open>books\<close> and
  \<^verbatim>\<open>reviews\<close>, and one text-generation client. Each handler becomes a function that
  takes the database and the request and returns the response (or the exception that ends the
  request) together with the database after the request.

  What is outside the source file is modelled as follows.
  \<^item> The database holds both tables (the state after \<^verbatim>\<open>create_all\<close> has run once), each a list
    of rows in storage order, and one identifier sequence per table.
  \<^item> The store is the PostgreSQL database that the startup check of the source names, and it
    enforces the schema the source declares: an \<^verbatim>\<open>Integer\<close> column holds an integer
    or NULL, and a row of \<^verbatim>\<open>books\<close> that a row of \<^verbatim>\<open>reviews\<close> references through
    \<^verbatim>\<open>ForeignKey('books.id')\<close> cannot be deleted. A statement the store rejects raises at
    \<^verbatim>\<open>commit\<close> and nothing of the request is persisted. An \<^verbatim>\<open>Integer\<close> column is the
    32-bit integer of PostgreSQL: a value outside \<open>-2\<^sup>3\<^sup>1 \<dots> 2\<^sup>3\<^sup>1 - 1\<close> is rejected. A text with
    a NUL character is rejected by the database driver before the statement is sent. The size
    limits of the store (a field, a row of an index) and the exhaustion of a sequence are not
    modelled.
  \<^item> Integers of the program are Python's unbounded ones. The quotient \<^verbatim>\<open>a / b\<close> of two
    integers is the binary64 float nearest to the exact quotient, ties to even; a float is
    modelled by its value, a rational number.
  \<^item> \<^verbatim>\<open>OllamaLLM.invoke\<close> is a parameter of the handlers that call it: a function from the prompt
    to the generated string, or to the exception it raises.
  \<^item> \<^verbatim>\<open>Column.in_\<close> is a parameter too: it turns its argument into the list of values of the SQL
    \<^verbatim>\<open>IN\<close> expression, or raises.
\<close>

subsection \<open>Exceptions\<close>

datatype error =
    HTTPException nat string
  | DataError
  | IntegrityError
  | TypeError
  | AttributeError string
  | IndexError
  | ValidationError
  | ArgumentError
  | ValueError
  | ZeroDivisionError
  | OverflowError
  | ClientError string

subsection \<open>Request and response bodies (the pydantic models)\<close>

text \<open>
  \<^verbatim>\<open>year_published: Optional[int] = ""\<close>: a value given in the request is validated, so it is
  \<^verbatim>\<open>None\<close> or an integer; a request that omits the field gets the default, which pydantic does not
  validate: the empty string.
\<close>

datatype year_field = YearNone | YearInt int | YearEmptyStr

record Book =
  B_id :: "int option"
  B_title :: string
  B_author :: string
  B_genre :: "string option"
  B_year_published :: year_field
  B_summary :: "string option"

record Review =
  R_id :: "int option"
  R_book_id :: "int option"
  R_user_id :: int
  R_review_text :: string
  R_rating :: int

text \<open>A finite binary64 float, by its value.\<close>

type_synonym float = rat

record Summary =
  S_summary :: string
  S_rating :: float

text \<open>\<^verbatim>\<open>Book(title=t, author=a)\<close>: the object built from a request that gives the two mandatory
  fields only; every other field takes the default of the class.\<close>

definition Book_init :: "string \<Rightarrow> string \<Rightarrow> Book" where
  "Book_init t a =
     \<lparr>B_id = None, B_title = t, B_author = a, B_genre = Some '''',
      B_year_published = YearEmptyStr, B_summary = Some ''''\<rparr>"

subsection \<open>Rows (the ORM models) and the database\<close>

record BookModel =
  BM_id :: int
  BM_title :: string
  BM_author :: string
  BM_genre :: "string option"
  BM_year_published :: "int option"
  BM_summary :: "string option"

record ReviewModel =
  RM_id :: int
  RM_book_id :: int
  RM_user_id :: int
  RM_review_text :: string
  RM_rating :: int

record db =
  books :: "BookModel list"
  reviews :: "ReviewModel list"
  books_id_seq :: int
  reviews_id_seq :: int

definition empty_db :: db where
  "empty_db = \<lparr>books = [], reviews = [], books_id_seq = 1, reviews_id_seq = 1\<rparr>"

text \<open>The range of an \<^verbatim>\<open>Integer\<close> column.\<close>

definition int4 :: "int \<Rightarrow> bool" where
  "int4 n \<longleftrightarrow> - 2147483648 \<le> n \<and> n \<le> 2147483647"

text \<open>The value an \<^verbatim>\<open>Integer\<close> column takes from a Python value, or the error of the store.\<close>

fun Integer_column :: "year_field \<Rightarrow> error + int option" where
  "Integer_column YearNone = Inr None"
| "Integer_column (YearInt n) = (if int4 n then Inr (Some n) else Inl DataError)"
| "Integer_column YearEmptyStr = Inl DataError"

text \<open>A text the driver passes on to the store: one without a NUL character.\<close>

definition text_ok :: "string \<Rightarrow> bool" where
  "text_ok s \<longleftrightarrow> CHR 0x00 \<notin> set s"

definition optional_text_ok :: "string option \<Rightarrow> bool" where
  "optional_text_ok t = (case t of None \<Rightarrow> True | Some s \<Rightarrow> text_ok s)"

text \<open>\<^verbatim>\<open>orm_mode\<close>: the response body read off a row.\<close>

definition Book_from_orm :: "BookModel \<Rightarrow> Book" where
  "Book_from_orm r =
     \<lparr>B_id = Some (BM_id r), B_title = BM_title r, B_author = BM_author r,
      B_genre = BM_genre r,
      B_year_published = (case BM_year_published r of None \<Rightarrow> YearNone | Some n \<Rightarrow> YearInt n),
      B_summary = BM_summary r\<rparr>"

definition Review_from_orm :: "ReviewModel \<Rightarrow> Review" where
  "Review_from_orm r =
     \<lparr>R_id = Some (RM_id r), R_book_id = Some (RM_book_id r), R_user_id = RM_user_id r,
      R_review_text = RM_review_text r, R_rating = RM_rating r\<rparr>"

text \<open>\<^verbatim>\<open>db.query(BookModel).filter(BookModel.id == id).first()\<close>\<close>

definition query_book :: "db \<Rightarrow> int \<Rightarrow> BookModel option" where
  "query_book d i = find (\<lambda>b. BM_id b = i) (books d)"

text \<open>\<^verbatim>\<open>db.query(ReviewModel).filter(ReviewModel.book_id == id).all()\<close>\<close>

definition query_reviews :: "db \<Rightarrow> int \<Rightarrow> ReviewModel list" where
  "query_reviews d i = filter (\<lambda>r. RM_book_id r = i) (reviews d)"

subsection \<open>Strings\<close>

fun join :: "string \<Rightarrow> string list \<Rightarrow> string" where
  "join sep [] = []"
| "join sep [x] = x"
| "join sep (x # y # ys) = x @ sep @ join sep (y # ys)"

text \<open>\<^verbatim>\<open>sep.join(xs)\<close> where an item may be \<^verbatim>\<open>None\<close>: Python raises \<^verbatim>\<open>TypeError\<close>.\<close>

definition join_optional :: "string \<Rightarrow> string option list \<Rightarrow> error + string" where
  "join_optional sep xs = (case those xs of None \<Rightarrow> Inl TypeError | Some ys \<Rightarrow> Inr (join sep ys))"

definition whitespace :: "char \<Rightarrow> bool" where
  "whitespace c = (c \<in> set [CHR '' '', CHR 0x09, CHR 0x0A, CHR 0x0B, CHR 0x0C, CHR 0x0D])"

definition strip :: "string \<Rightarrow> string" where
  "strip s = rev (dropWhile whitespace (rev (dropWhile whitespace s)))"

subsection \<open>Python values of the text-generation response\<close>

datatype pyobj = PyStr string | PyList "pyobj list" | PyObject "(string \<times> pyobj) list"

text \<open>Attribute access \<^verbatim>\<open>o.name\<close> for a data attribute. A \<^verbatim>\<open>str\<close> and a \<^verbatim>\<open>list\<close> have none.\<close>

fun getattr :: "pyobj \<Rightarrow> string \<Rightarrow> error + pyobj" where
  "getattr (PyObject fs) name =
     (case map_of fs name of None \<Rightarrow> Inl (AttributeError name) | Some v \<Rightarrow> Inr v)"
| "getattr (PyStr s) name = Inl (AttributeError name)"
| "getattr (PyList xs) name = Inl (AttributeError name)"

text \<open>Indexing \<^verbatim>\<open>o[n]\<close> with a natural number.\<close>

fun getitem :: "pyobj \<Rightarrow> nat \<Rightarrow> error + pyobj" where
  "getitem (PyList xs) n = (if n < length xs then Inr (xs ! n) else Inl IndexError)"
| "getitem (PyStr s) n = (if n < length s then Inr (PyStr [s ! n]) else Inl IndexError)"
| "getitem (PyObject fs) n = Inl TypeError"

text \<open>The method call \<^verbatim>\<open>o.strip()\<close>.\<close>

fun call_strip :: "pyobj \<Rightarrow> error + pyobj" where
  "call_strip (PyStr s) = Inr (PyStr (strip s))"
| "call_strip (PyList xs) = Inl (AttributeError ''strip'')"
| "call_strip (PyObject fs) = Inl (AttributeError ''strip'')"

text \<open>\<^verbatim>\<open>Summary(summary=o, rating=x)\<close>: the field \<^verbatim>\<open>summary: str\<close> is validated.\<close>

fun Summary_init :: "pyobj \<Rightarrow> float \<Rightarrow> error + Summary" where
  "Summary_init (PyStr s) x = Inr \<lparr>S_summary = s, S_rating = x\<rparr>"
| "Summary_init (PyList xs) x = Inl ValidationError"
| "Summary_init (PyObject fs) x = Inl ValidationError"

subsection \<open>Python's division of two integers\<close>

text \<open>\<^verbatim>\<open>n.bit_length()\<close>\<close>

fun bit_length :: "nat \<Rightarrow> nat" where
  "bit_length n = (if n = 0 then 0 else Suc (bit_length (n div 2)))"

declare bit_length.simps [simp del]

text \<open>The exponent \<open>e\<close> with \<open>2\<^sup>e \<le> a / b < 2\<^sup>e\<^sup>+\<^sup>1\<close>, for positive \<open>a\<close> and \<open>b\<close>.\<close>

definition floor_log2 :: "nat \<Rightarrow> nat \<Rightarrow> int" where
  "floor_log2 a b =
     (if b \<le> a then int (bit_length (a div b)) - 1
      else - int (bit_length ((b + a - 1) div a - 1)))"

text \<open>The integer nearest to \<open>num / den\<close>, a tie going to the even one.\<close>

definition round_half_even :: "nat \<Rightarrow> nat \<Rightarrow> nat" where
  "round_half_even num den =
     (let f = num div den; r = num mod den
      in if 2 * r < den then f else if den < 2 * r then f + 1
         else if even f then f else f + 1)"

text \<open>The integer nearest to \<open>(a / b) / 2\<^sup>k\<close>, in integer arithmetic.\<close>

definition round_scaled :: "nat \<Rightarrow> nat \<Rightarrow> int \<Rightarrow> nat" where
  "round_scaled a b k =
     (if k < 0 then round_half_even (a * 2 ^ nat (- k)) b
      else round_half_even a (b * 2 ^ nat k))"

text \<open>\<^verbatim>\<open>a / b\<close> on two \<^verbatim>\<open>int\<close>s: the quotient is rounded to 53 significant bits, or to a multiple
  of \<open>2\<^sup>-\<^sup>1\<^sup>0\<^sup>7\<^sup>4\<close> in the subnormal range; a result of \<open>2\<^sup>1\<^sup>0\<^sup>2\<^sup>4\<close> or more is \<^verbatim>\<open>OverflowError\<close>.\<close>

definition true_divide :: "int \<Rightarrow> int \<Rightarrow> error + float" where
  "true_divide a b =
     (if b = 0 then Inl ZeroDivisionError
      else if a = 0 then Inr 0
      else
        (let na = nat \<bar>a\<bar>; nb = nat \<bar>b\<bar>;
             k = max (floor_log2 na nb) (- 1022) - 52;
             x = rat_of_nat (round_scaled na nb k) * 2 powi k
         in if 2 powi 1024 \<le> x then Inl OverflowError
            else Inr (if (a < 0) = (b < 0) then x else - x)))"

subsection \<open>The handlers\<close>

type_synonym llm = "string \<Rightarrow> error + string"

text \<open>The four text columns of a row of \<^verbatim>\<open>books\<close>, as the request gives them.\<close>

definition Book_texts_ok :: "Book \<Rightarrow> bool" where
  "Book_texts_ok book \<longleftrightarrow>
     text_ok (B_title book) \<and> text_ok (B_author book) \<and> optional_text_ok (B_genre book)
     \<and> optional_text_ok (B_summary book)"

text \<open>\<^verbatim>\<open>POST /books\<close>: the row is built from the request (its \<^verbatim>\<open>id\<close> is not read) and
  inserted at \<^verbatim>\<open>commit\<close>, where the driver rejects a text with a NUL character and the column
  \<^verbatim>\<open>year_published = Column(Integer)\<close> takes the year or rejects it; the identifier comes from
  the sequence of the table.\<close>

definition add_book :: "db \<Rightarrow> Book \<Rightarrow> (error + Book) \<times> db" where
  "add_book d book =
     (if \<not> Book_texts_ok book then (Inl ValueError, d)
      else
        (case Integer_column (B_year_published book) of
           Inl e \<Rightarrow> (Inl e, d)
         | Inr year \<Rightarrow>
             (let db_book = \<lparr>BM_id = books_id_seq d, BM_title = B_title book,
                             BM_author = B_author book, BM_genre = B_genre book,
                             BM_year_published = year, BM_summary = B_summary book\<rparr>
              in (Inr (Book_from_orm db_book),
                  d\<lparr>books := books d @ [db_book], books_id_seq := books_id_seq d + 1\<rparr>))))"

text \<open>\<^verbatim>\<open>GET /books\<close>\<close>

definition get_books :: "db \<Rightarrow> (error + Book list) \<times> db" where
  "get_books d = (Inr (map Book_from_orm (books d)), d)"

text \<open>\<^verbatim>\<open>GET /books/{id}\<close>\<close>

definition get_book :: "db \<Rightarrow> int \<Rightarrow> (error + Book) \<times> db" where
  "get_book d i =
     (case query_book d i of
        None \<Rightarrow> (Inl (HTTPException 404 ''Book not found''), d)
      | Some book \<Rightarrow> (Inr (Book_from_orm book), d))"

text \<open>\<^verbatim>\<open>PUT /books/{id}\<close>: the five assignments, then \<^verbatim>\<open>UPDATE books SET ... WHERE id = ...\<close>
  at \<^verbatim>\<open>commit\<close>, where the integer column takes the year or rejects it.\<close>

definition update_book :: "db \<Rightarrow> int \<Rightarrow> Book \<Rightarrow> (error + Book) \<times> db" where
  "update_book d i book =
     (case query_book d i of
        None \<Rightarrow> (Inl (HTTPException 404 ''Book not found''), d)
      | Some db_book \<Rightarrow>
          (if \<not> Book_texts_ok book then (Inl ValueError, d)
           else
             (case Integer_column (B_year_published book) of
                Inl e \<Rightarrow> (Inl e, d)
              | Inr year \<Rightarrow>
                  (let db_book' = db_book\<lparr>BM_title := B_title book, BM_author := B_author book,
                                           BM_genre := B_genre book, BM_year_published := year,
                                           BM_summary := B_summary book\<rparr>
                   in (Inr (Book_from_orm db_book'),
                       d\<lparr>books := map (\<lambda>b. if BM_id b = BM_id db_book then db_book' else b)
                                       (books d)\<rparr>)))))"

text \<open>\<^verbatim>\<open>DELETE /books/{id}\<close>: \<^verbatim>\<open>DELETE FROM books WHERE id = ...\<close> at \<^verbatim>\<open>commit\<close>, which the
  foreign key of \<^verbatim>\<open>reviews\<close> rejects while a review references the book.\<close>

definition delete_book :: "db \<Rightarrow> int \<Rightarrow> (error + string) \<times> db" where
  "delete_book d i =
     (case query_book d i of
        None \<Rightarrow> (Inl (HTTPException 404 ''Book not found''), d)
      | Some book \<Rightarrow>
          (if list_ex (\<lambda>r. RM_book_id r = BM_id book) (reviews d)
           then (Inl IntegrityError, d)
           else (Inr ''Book deleted successfully'',
                 d\<lparr>books := filter (\<lambda>b. BM_id b \<noteq> BM_id book) (books d)\<rparr>)))"

text \<open>\<^verbatim>\<open>POST /books/{id}/reviews\<close>: the row is inserted at \<^verbatim>\<open>commit\<close>, where the driver
  rejects a text with a NUL character and the columns \<^verbatim>\<open>user_id\<close> and \<^verbatim>\<open>rating\<close>, both
  \<^verbatim>\<open>Column(Integer)\<close>, reject a value outside their range.\<close>

definition add_review :: "db \<Rightarrow> int \<Rightarrow> Review \<Rightarrow> (error + Review) \<times> db" where
  "add_review d i review =
     (case query_book d i of
        None \<Rightarrow> (Inl (HTTPException 404 ''Book not found''), d)
      | Some book \<Rightarrow>
          (if \<not> text_ok (R_review_text review) then (Inl ValueError, d)
           else if \<not> (int4 (R_user_id review) \<and> int4 (R_rating review))
           then (Inl DataError, d)
           else
             (let db_review = \<lparr>RM_id = reviews_id_seq d, RM_book_id = BM_id book,
                               RM_user_id = R_user_id review,
                               RM_review_text = R_review_text review,
                               RM_rating = R_rating review\<rparr>
              in (Inr (Review_from_orm db_review),
                  d\<lparr>reviews := reviews d @ [db_review],
                    reviews_id_seq := reviews_id_seq d + 1\<rparr>))))"

text \<open>\<^verbatim>\<open>GET /books/{id}/reviews\<close>\<close>

definition get_reviews :: "db \<Rightarrow> int \<Rightarrow> (error + Review list) \<times> db" where
  "get_reviews d i =
     (let rs = query_reviews d i
      in if rs = [] then (Inl (HTTPException 404 ''No reviews found for this book''), d)
         else (Inr (map Review_from_orm rs), d))"

text \<open>\<^verbatim>\<open>GET /books/{id}/summary\<close>: the average is computed before the client is called.\<close>

definition summary_prompt :: "ReviewModel list \<Rightarrow> string" where
  "summary_prompt rs = ''Summarize the following reviews: '' @ join '' '' (map RM_review_text rs)"

definition get_summary :: "llm \<Rightarrow> db \<Rightarrow> int \<Rightarrow> (error + Summary) \<times> db" where
  "get_summary invoke d i =
     (case query_book d i of
        None \<Rightarrow> (Inl (HTTPException 404 ''Book not found''), d)
      | Some book \<Rightarrow>
          (let rs = query_reviews d i
           in if rs = [] then (Inl (HTTPException 404 ''No reviews found for this book''), d)
              else
                (case true_divide (sum_list (map RM_rating rs)) (int (length rs)) of
                   Inl e \<Rightarrow> (Inl e, d)
                 | Inr average_rating \<Rightarrow>
                     (case invoke (summary_prompt rs) of
                        Inl e \<Rightarrow> (Inl e, d)
                      | Inr response \<Rightarrow>
                          (Inr \<lparr>S_summary = response, S_rating = average_rating\<rparr>, d)))))"

text \<open>\<^verbatim>\<open>GET /recommendations\<close>\<close>

definition user_preferences :: "string list" where
  "user_preferences = [''fiction'', ''adventure'', ''mystery'']"

definition recommendations_prompt :: "BookModel list \<Rightarrow> error + string" where
  "recommendations_prompt bs =
     (case join_optional '', '' (map BM_summary bs) of
        Inl e \<Rightarrow> Inl e
      | Inr summaries \<Rightarrow>
          Inr (''Based on the following user preferences: '' @ join '', '' user_preferences
               @ '', recommend books from the following list: '' @ join '', '' (map BM_title bs)
               @ '' with summaries: '' @ summaries))"

definition get_recommendations ::
  "llm \<Rightarrow> (string \<Rightarrow> error + string list) \<Rightarrow> db \<Rightarrow> (error + Book list) \<times> db" where
  "get_recommendations invoke title_in d =
     (if books d = [] then (Inl (HTTPException 404 ''No books found''), d)
      else
        (case recommendations_prompt (books d) of
           Inl e \<Rightarrow> (Inl e, d)
         | Inr prompt \<Rightarrow>
             (case invoke prompt of
                Inl e \<Rightarrow> (Inl e, d)
              | Inr response \<Rightarrow>
                  (case title_in response of
                     Inl e \<Rightarrow> (Inl e, d)
                   | Inr vs \<Rightarrow>
                       (Inr (map Book_from_orm (filter (\<lambda>b. BM_title b \<in> set vs) (books d))),
                        d)))))"

text \<open>\<^verbatim>\<open>POST /generate-summary\<close>: no database session. \<^verbatim>\<open>invoke\<close> returns a \<^verbatim>\<open>str\<close>.\<close>

definition generate_summary :: "llm \<Rightarrow> string \<Rightarrow> error + Summary" where
  "generate_summary invoke content =
     (case invoke (''Summarize the following content: '' @ content) of
        Inl e \<Rightarrow> Inl e
      | Inr response \<Rightarrow>
          (case getattr (PyStr response) ''choices'' of
             Inl e \<Rightarrow> Inl e
           | Inr choices \<Rightarrow>
               (case getitem choices 0 of
                  Inl e \<Rightarrow> Inl e
                | Inr choice \<Rightarrow>
                    (case getattr choice ''text'' of
                       Inl e \<Rightarrow> Inl e
                     | Inr text \<Rightarrow>
                         (case call_strip text of
                            Inl e \<Rightarrow> Inl e
                          | Inr summary \<Rightarrow> Summary_init summary 0)))))"

subsection \<open>Notions used by the properties\<close>

text \<open>The invariant of the database: identifiers are unique and below the sequence of their
  table, every review references a stored book, and the user and the rating of a review are in
  the range of their columns.\<close>

definition wf_db :: "db \<Rightarrow> bool" where
  "wf_db d \<longleftrightarrow>
     list_all (\<lambda>b. BM_id b < books_id_seq d) (books d) \<and> distinct (map BM_id (books d)) \<and>
     list_all (\<lambda>r. RM_id r < reviews_id_seq d) (reviews d) \<and> distinct (map RM_id (reviews d)) \<and>
     list_all (\<lambda>r. list_ex (\<lambda>b. BM_id b = RM_book_id r) (books d)) (reviews d) \<and>
     list_all (\<lambda>r. int4 (RM_user_id r) \<and> int4 (RM_rating r)) (reviews d)"

text \<open>A client posting a list of reviews to \<^verbatim>\<open>/books/{id}/reviews\<close>, one request after the
  other.\<close>

fun add_reviews :: "db \<Rightarrow> int \<Rightarrow> Review list \<Rightarrow> db" where
  "add_reviews d i [] = d"
| "add_reviews d i (r # rs) = add_reviews (snd (add_review d i r)) i rs"

text \<open>The arithmetic mean in the words of the specification: the sum of the ratings divided by
  their number, over the ratings persisted for a book, whatever the order of the rows.\<close>

definition arithmetic_mean :: "int multiset \<Rightarrow> rat" where
  "arithmetic_mean M = rat_of_int (sum_mset M) / rat_of_nat (size M)"

text \<open>The finite binary64 numbers: 53 bits of significand, exponents from -1074 to 971.\<close>

definition binary64 :: "rat \<Rightarrow> bool" where
  "binary64 x \<longleftrightarrow>
     (\<exists>m e. \<bar>m\<bar> < 2 ^ 53 \<and> - 1074 \<le> e \<and> e \<le> 971 \<and> x = rat_of_int m * 2 powi e)"

text \<open>A review the store accepts.\<close>

definition Review_ok :: "Review \<Rightarrow> bool" where
  "Review_ok r \<longleftrightarrow> text_ok (R_review_text r) \<and> int4 (R_user_id r) \<and> int4 (R_rating r)"

definition persisted_ratings :: "db \<Rightarrow> int \<Rightarrow> int multiset" where
  "persisted_ratings d i =
     image_mset RM_rating (filter_mset (\<lambda>r. RM_book_id r = i) (mset (reviews d)))"

subsection \<open>Sample data\<close>

definition dune :: Book where
  "dune = (Book_init ''Dune'' ''Herbert'')\<lparr>B_year_published := YearInt 1965\<rparr>"

definition review_of :: "int \<Rightarrow> int \<Rightarrow> string \<Rightarrow> Review" where
  "review_of u n t =
     \<lparr>R_id = None, R_book_id = None, R_user_id = u, R_review_text = t, R_rating = n\<rparr>"

definition db_dune :: db where
  "db_dune = snd (add_book empty_db dune)"

definition db_dune_reviewed :: db where
  "db_dune_reviewed = snd (add_review db_dune 1 (review_of 7 5 ''Great''))"

definition db_dune_112 :: db where
  "db_dune_112 =
     add_reviews db_dune 1 [review_of 7 1 ''Poor'', review_of 8 1 ''Bad'', review_of 9 2 ''Dull'']"

definition db_two_books :: db where
  "db_two_books =
     snd (add_book db_dune ((Book_init ''A'' ''Anon'')\<lparr>B_year_published := YearNone\<rparr>))"

definition llm_ok :: llm where
  "llm_ok prompt = Inr ''ok''"

definition llm_titles :: llm where
  "llm_titles prompt = Inr ''A, Dune''"

text \<open>One reading of \<^verbatim>\<open>Column.in_\<close> on a \<^verbatim>\<open>str\<close>: the string is iterated, each character a
  value of the \<^verbatim>\<open>IN\<close> list.\<close>

definition in_characters :: "string \<Rightarrow> error + string list" where
  "in_characters s = Inr (map (\<lambda>c. [c]) s)"

section \<open>Properties\<close>

subsection \<open>Python's division rounds to the nearest binary64 number\<close>

lemma bit_length_0 [simp]: "bit_length 0 = 0"
  by (simp add: bit_length.simps)

lemma bit_length_1 [simp]: "bit_length (Suc 0) = Suc 0"
  by (simp add: bit_length.simps)

lemma bit_length_numeral [simp]:
  "bit_length (numeral w) = Suc (bit_length (numeral w div 2))"
  by (subst bit_length.simps) simp

lemma bit_length_bounds:
  "0 < n \<Longrightarrow> 2 ^ (bit_length n - 1) \<le> n \<and> n < 2 ^ bit_length n"
proof (induction n rule: bit_length.induct)
  case (1 n)
  show ?case
  proof (cases "n div 2 = 0")
    case True
    with "1.prems" have "n = 1" by (cases n) auto
    then show ?thesis by simp
  next
    case False
    then have pos: "0 < n div 2" by simp
    from "1.IH" [OF _ pos] "1.prems"
    have lo: "2 ^ (bit_length (n div 2) - 1) \<le> n div 2"
      and hi: "n div 2 < 2 ^ bit_length (n div 2)" by auto
    have bl: "bit_length n = Suc (bit_length (n div 2))"
      using "1.prems" by (subst bit_length.simps) simp
    have "0 < bit_length (n div 2)"
      using pos by (subst bit_length.simps) simp
    then have p: "(2::nat) ^ bit_length (n div 2) = 2 * 2 ^ (bit_length (n div 2) - 1)"
      by (cases "bit_length (n div 2)") auto
    have "2 * (n div 2) \<le> n" and "n < 2 * (n div 2) + 2" by presburger+
    with lo hi p have "2 ^ bit_length (n div 2) \<le> n" and "n < 2 * 2 ^ bit_length (n div 2)"
      by linarith+
    then show ?thesis unfolding bl by simp
  qed
qed

lemma round_half_even_near:
  assumes "0 < den"
  shows "\<bar>rat_of_nat (round_half_even num den) - rat_of_nat num / rat_of_nat den\<bar> \<le> 1 / 2"
proof -
  define f r where "f = num div den" and "r = num mod den"
  have num: "rat_of_nat num = rat_of_nat f * rat_of_nat den + rat_of_nat r"
    unfolding f_def r_def by (metis mult.commute of_nat_add of_nat_mult div_mult_mod_eq)
  have d: "0 < rat_of_nat den" using assms by simp
  have q: "rat_of_nat num / rat_of_nat den = rat_of_nat f + rat_of_nat r / rat_of_nat den"
    using d by (simp add: num field_simps)
  have r0: "0 \<le> rat_of_nat r / rat_of_nat den" using d by simp
  have r1: "rat_of_nat r / rat_of_nat den < 1"
    using assms by (simp add: r_def)
  consider "2 * r < den" | "den < 2 * r" | "2 * r = den" by linarith
  then show ?thesis
  proof cases
    case 1
    then have "rat_of_nat (2 * r) < rat_of_nat den" by (simp only: of_nat_less_iff)
    then have "rat_of_nat r / rat_of_nat den < 1 / 2" using d by (simp add: field_simps)
    moreover have "round_half_even num den = f"
      using 1 by (simp add: round_half_even_def f_def r_def Let_def)
    ultimately show ?thesis using r0 by (simp add: q)
  next
    case 2
    then have "rat_of_nat den < rat_of_nat (2 * r)" by (simp only: of_nat_less_iff)
    then have "1 / 2 < rat_of_nat r / rat_of_nat den" using d by (simp add: field_simps)
    moreover have "round_half_even num den = f + 1"
      using 2 by (simp add: round_half_even_def f_def r_def Let_def)
    ultimately show ?thesis using r1 by (simp add: q)
  next
    case 3
    then have "rat_of_nat (2 * r) = rat_of_nat den" by simp
    then have h: "rat_of_nat r / rat_of_nat den = 1 / 2" using d by (simp add: field_simps)
    have "round_half_even num den = f \<or> round_half_even num den = f + 1"
      using 3 by (simp add: round_half_even_def f_def r_def Let_def)
    then show ?thesis by (auto simp: q h)
  qed
qed

lemma floor_log2_bounds:
  assumes "0 < a" and "0 < b"
  shows "2 powi (floor_log2 a b) \<le> rat_of_nat a / rat_of_nat b"
    and "rat_of_nat a / rat_of_nat b < 2 powi (floor_log2 a b + 1)"
proof -
  have pa: "0 < rat_of_nat a" and pb: "0 < rat_of_nat b" using assms by simp_all
  have "2 powi (floor_log2 a b) \<le> rat_of_nat a / rat_of_nat b
    \<and> rat_of_nat a / rat_of_nat b < 2 powi (floor_log2 a b + 1)"
  proof (cases "b \<le> a")
    case True
    define m where "m = a div b"
    have m: "0 < m" using True assms by (simp add: m_def div_greater_zero_iff)
    from bit_length_bounds [OF m]
    have lo: "2 ^ (bit_length m - 1) \<le> m" and hi: "m < 2 ^ bit_length m" by auto
    have bl: "0 < bit_length m" using m by (subst bit_length.simps) simp
    have e: "floor_log2 a b = int (bit_length m - 1)"
      using True bl by (simp add: floor_log2_def m_def)
    have "m * b \<le> a" by (simp add: m_def)
    then have "rat_of_nat (m * b) \<le> rat_of_nat a" by (simp only: of_nat_le_iff)
    then have mq: "rat_of_nat m \<le> rat_of_nat a / rat_of_nat b"
      using pb by (simp add: field_simps)
    have "a < (m + 1) * b"
      using assms by (simp add: m_def) (metis dividend_less_div_times add.commute mult.commute)
    then have "rat_of_nat a < rat_of_nat ((m + 1) * b)" by (simp only: of_nat_less_iff)
    then have qm: "rat_of_nat a / rat_of_nat b < rat_of_nat (m + 1)"
      using pb by (simp add: field_simps)
    have "rat_of_nat (2 ^ (bit_length m - 1)) \<le> rat_of_nat m"
      using lo by (simp only: of_nat_le_iff)
    then have "(2::rat) ^ (bit_length m - 1) \<le> rat_of_nat m" by simp
    with mq have "(2::rat) ^ (bit_length m - 1) \<le> rat_of_nat a / rat_of_nat b"
      by linarith
    moreover have "(2::rat) powi (floor_log2 a b) = 2 ^ (bit_length m - 1)"
      by (simp only: e power_int_of_nat)
    ultimately have A: "2 powi (floor_log2 a b) \<le> rat_of_nat a / rat_of_nat b"
      by simp
    have e1: "floor_log2 a b + 1 = int (bit_length m)"
      using bl unfolding e by simp
    have "m + 1 \<le> 2 ^ bit_length m" using hi by simp
    then have "rat_of_nat (m + 1) \<le> rat_of_nat (2 ^ bit_length m)"
      by (simp only: of_nat_le_iff)
    then have "rat_of_nat (m + 1) \<le> (2::rat) ^ bit_length m" by simp
    with qm have "rat_of_nat a / rat_of_nat b < (2::rat) ^ bit_length m"
      by linarith
    moreover have "(2::rat) powi (floor_log2 a b + 1) = 2 ^ bit_length m"
      by (simp only: e1 power_int_of_nat)
    ultimately have "rat_of_nat a / rat_of_nat b < 2 powi (floor_log2 a b + 1)"
      by simp
    with A show ?thesis by simp
  next
    case False
    then have ab: "a < b" by simp
    define c where "c = (b + a - 1) div a"
    define k where "k = bit_length (c - 1)"
    have e: "floor_log2 a b = - int k"
      using False by (simp add: floor_log2_def c_def k_def)
    have cb: "b \<le> c * a"
    proof -
      have "b + a - 1 < (c + 1) * a"
        using assms unfolding c_def
        by (metis dividend_less_div_times add.commute mult.commute Suc_eq_plus1 mult_Suc)
      then show ?thesis by simp
    qed
    have bc: "(c - 1) * a < b"
    proof -
      have "c * a \<le> b + a - 1" by (simp add: c_def)
      then have "c * a < b + a" using assms by linarith
      with assms have "c * a - a < b" by linarith
      then show ?thesis by (simp add: diff_mult_distrib)
    qed
    have c2: "2 \<le> c"
    proof (rule ccontr)
      assume "\<not> 2 \<le> c"
      then have "c * a \<le> a" by (cases c) auto
      with cb ab show False by simp
    qed
    then have c1: "0 < c - 1" by simp
    from bit_length_bounds [OF c1]
    have lo: "2 ^ (k - 1) \<le> c - 1" and hi: "c - 1 < 2 ^ k" by (auto simp: k_def)
    have kpos: "0 < k" using c1 unfolding k_def by (subst bit_length.simps) simp
    have "c \<le> 2 ^ k" using hi by simp
    then have "b \<le> 2 ^ k * a" using cb by (meson le_trans mult_le_mono1)
    then have "rat_of_nat b \<le> rat_of_nat (2 ^ k * a)" by (simp only: of_nat_le_iff)
    then have "1 / 2 ^ k \<le> rat_of_nat a / rat_of_nat b"
      using pa pb by (simp add: field_simps)
    then have A: "2 powi (floor_log2 a b) \<le> rat_of_nat a / rat_of_nat b"
      unfolding e by (simp add: power_int_minus power_int_of_nat field_simps)
    have "2 ^ (k - 1) * a < b"
      using lo bc by (meson le_less_trans mult_le_mono1)
    then have "rat_of_nat (2 ^ (k - 1) * a) < rat_of_nat b" by (simp only: of_nat_less_iff)
    then have "rat_of_nat a / rat_of_nat b < 1 / 2 ^ (k - 1)"
      using pa pb by (simp add: field_simps)
    moreover have "floor_log2 a b + 1 = - int (k - 1)"
      using kpos unfolding e by simp
    ultimately have "rat_of_nat a / rat_of_nat b < 2 powi (floor_log2 a b + 1)"
      by (simp add: power_int_minus power_int_of_nat field_simps)
    with A show ?thesis by simp
  qed
  then show "2 powi (floor_log2 a b) \<le> rat_of_nat a / rat_of_nat b"
    and "rat_of_nat a / rat_of_nat b < 2 powi (floor_log2 a b + 1)" by simp_all
qed

lemma round_scaled_near:
  assumes "0 < b"
  shows "\<bar>rat_of_nat (round_scaled a b k) - rat_of_nat a / rat_of_nat b / 2 powi k\<bar> \<le> 1 / 2"
proof (cases "k < 0")
  case True
  have p: "(2::rat) powi k = 1 / 2 ^ nat (- k)"
    using True by (simp add: power_int_def field_simps)
  have eq: "rat_of_nat (a * 2 ^ nat (- k)) / rat_of_nat b = rat_of_nat a / rat_of_nat b / 2 powi k"
    by (simp add: p)
  have rs: "round_scaled a b k = round_half_even (a * 2 ^ nat (- k)) b"
    using True by (simp add: round_scaled_def)
  show ?thesis unfolding rs eq [symmetric] by (rule round_half_even_near [OF assms])
next
  case False
  have p: "(2::rat) powi k = 2 ^ nat k"
    using False by (simp add: power_int_def)
  have pos: "0 < b * 2 ^ nat k" using assms by simp
  have eq: "rat_of_nat a / rat_of_nat (b * 2 ^ nat k) = rat_of_nat a / rat_of_nat b / 2 powi k"
    by (simp add: p)
  have rs: "round_scaled a b k = round_half_even a (b * 2 ^ nat k)"
    using False by (simp add: round_scaled_def)
  show ?thesis unfolding rs eq [symmetric] by (rule round_half_even_near [OF pos])
qed

text \<open>An integer within one half of \<open>t\<close> is at least as close to \<open>t\<close> as any other integer.\<close>

lemma nearest_integer:
  assumes "\<bar>rat_of_nat n - t\<bar> \<le> 1 / 2"
  shows "\<bar>rat_of_nat n - t\<bar> \<le> \<bar>rat_of_int i - t\<bar>"
proof (cases "i = int n")
  case True
  then show ?thesis by simp
next
  case False
  then have "1 \<le> \<bar>i - int n\<bar>" by linarith
  then have "rat_of_int 1 \<le> rat_of_int \<bar>i - int n\<bar>" by (simp only: of_int_le_iff)
  then have "1 \<le> \<bar>rat_of_int i - rat_of_nat n\<bar>" by simp
  with assms show ?thesis by linarith
qed

lemma p2_pos: "0 < (2::rat) powi a"
  by (simp add: zero_less_power_int)

lemma p2_add: "(2::rat) powi (a + b) = 2 powi a * 2 powi b"
  by (simp add: power_int_add)

lemma p2_int: "0 \<le> a \<Longrightarrow> (2::rat) powi a = rat_of_int (2 ^ nat a)"
  by (simp add: power_int_def)

lemma p2_mono: "a \<le> b \<Longrightarrow> (2::rat) powi a \<le> 2 powi b"
  by (simp add: power_int_increasing)

lemma p2_strict_mono: "a < b \<Longrightarrow> (2::rat) powi a < 2 powi b"
  by (simp add: power_int_strict_increasing)

text \<open>A power of two at or above the unit \<open>2 powi k\<close> is an integer multiple of it.\<close>

lemma p2_multiple:
  assumes "k \<le> j"
  shows "(2::rat) powi j = rat_of_int (2 ^ nat (j - k)) * 2 powi k"
proof -
  have "(2::rat) powi j = 2 powi ((j - k) + k)" by simp
  also have "\<dots> = 2 powi (j - k) * 2 powi k" by (rule p2_add)
  also have "2 powi (j - k) = rat_of_int (2 ^ nat (j - k))"
    using assms by (intro p2_int) simp
  finally show ?thesis .
qed

lemma nearest_multiple:
  assumes u: "0 < u" and n: "\<bar>rat_of_nat n - q / u\<bar> \<le> 1 / 2"
  shows "\<bar>rat_of_nat n * u - q\<bar> \<le> \<bar>rat_of_int i * u - q\<bar>"
proof -
  have "\<bar>rat_of_nat n - q / u\<bar> \<le> \<bar>rat_of_int i - q / u\<bar>"
    using n by (rule nearest_integer)
  then have "\<bar>rat_of_nat n - q / u\<bar> * u \<le> \<bar>rat_of_int i - q / u\<bar> * u"
    using u by (simp add: mult_right_mono)
  moreover have "\<bar>z - q / u\<bar> * u = \<bar>z * u - q\<bar>" for z
  proof -
    have "\<bar>z - q / u\<bar> * u = \<bar>z - q / u\<bar> * \<bar>u\<bar>" using u by simp
    also have "\<dots> = \<bar>(z - q / u) * u\<bar>" by (simp add: abs_mult)
    also have "(z - q / u) * u = z * u - q" using u by (simp add: field_simps)
    finally show ?thesis .
  qed
  ultimately show ?thesis by simp
qed

lemma round_upper:
  assumes q: "q < 2 powi (e + 1)" and q0: "0 < q"
    and n: "\<bar>rat_of_nat n - q / 2 powi k\<bar> \<le> 1 / 2"
  shows "rat_of_nat n * 2 powi k \<le> 2 powi (e + 1) \<or> n = 0"
proof (cases "k \<le> e + 1")
  case True
  define P :: int where "P = 2 ^ nat (e + 1 - k)"
  have m: "(2::rat) powi (e + 1) = rat_of_int P * 2 powi k"
    unfolding P_def using True by (rule p2_multiple)
  have "q < rat_of_int P * 2 powi k" using q unfolding m .
  then have "q / 2 powi k < rat_of_int P"
    using p2_pos [of k] by (simp add: pos_divide_less_eq)
  with n have "rat_of_nat n < rat_of_int P + 1 / 2" by linarith
  then have "rat_of_int (2 * int n) < rat_of_int (2 * P + 1)" by simp
  then have "2 * int n < 2 * P + 1" by (simp only: of_int_less_iff)
  then have "int n \<le> P" by linarith
  then have "rat_of_int (int n) \<le> rat_of_int P" by (simp only: of_int_le_iff)
  then have "rat_of_nat n * 2 powi k \<le> rat_of_int P * 2 powi k"
    using p2_pos [of k] by (simp add: mult_right_mono)
  then show ?thesis by (simp add: m)
next
  case False
  then have "e + 1 \<le> k - 1" by simp
  then have "(2::rat) powi (e + 1) \<le> 2 powi (k - 1)" by (rule p2_mono)
  also have "(2::rat) powi (k - 1) = 2 powi k / 2"
    using p2_add [of k "- 1"] by simp
  finally have "q < 2 powi k / 2" using q by simp
  then have "q / 2 powi k < 1 / 2" using p2_pos [of k] by (simp add: field_simps)
  with n have "rat_of_nat n < 1" by linarith
  then have "n = 0" by simp
  then show ?thesis by simp
qed

lemma round_lower:
  assumes q: "2 powi e \<le> q"
    and n: "\<bar>rat_of_nat n - q / 2 powi (e - 52)\<bar> \<le> 1 / 2"
  shows "2 ^ 52 \<le> n"
proof -
  have m: "(2::rat) powi e = rat_of_int (2 ^ 52) * 2 powi (e - 52)"
    using p2_multiple [of "e - 52" e] by simp
  have "rat_of_int (2 ^ 52) * 2 powi (e - 52) \<le> q" using q unfolding m .
  then have "rat_of_int (2 ^ 52) \<le> q / 2 powi (e - 52)"
    using p2_pos [of "e - 52"] by (simp add: pos_le_divide_eq)
  with n have "rat_of_int (2 ^ 52) - 1 / 2 \<le> rat_of_nat n" by linarith
  then have "rat_of_int (2 * 2 ^ 52 - 1) \<le> rat_of_int (2 * int n)" by simp
  then have "2 * 2 ^ 52 - 1 \<le> 2 * int n" by (simp only: of_int_le_iff)
  then have "(2::int) ^ 52 \<le> int n" by linarith
  then show ?thesis by (metis of_nat_le_iff of_nat_numeral of_nat_power)
qed

lemma binary64I:
  "\<bar>m\<bar> < 2 ^ 53 \<Longrightarrow> - 1074 \<le> j \<Longrightarrow> j \<le> 971 \<Longrightarrow> x = rat_of_int m * 2 powi j \<Longrightarrow> binary64 x"
  unfolding binary64_def by blast

lemma mult_p2_le_cancel: "rat_of_nat n * 2 powi k \<le> rat_of_int P * 2 powi k \<Longrightarrow> int n \<le> P"
proof -
  assume "rat_of_nat n * 2 powi k \<le> rat_of_int P * 2 powi k"
  then have "rat_of_nat n \<le> rat_of_int P" using p2_pos [of k] by simp
  then have "rat_of_int (int n) \<le> rat_of_int P" by simp
  then show ?thesis by (simp only: of_int_le_iff)
qed

lemma round_nearest:
  assumes q1: "2 powi e \<le> q" and q2: "q < 2 powi (e + 1)"
    and k: "k = max e (- 1022) - 52"
    and n: "\<bar>rat_of_nat n - q / 2 powi k\<bar> \<le> 1 / 2"
    and y: "binary64 y"
  shows "\<bar>rat_of_nat n * 2 powi k - q\<bar> \<le> \<bar>y - q\<bar>"
proof -
  from y obtain m j where m: "\<bar>m\<bar> < 2 ^ 53" and j: "- 1074 \<le> j" "j \<le> 971"
    and yv: "y = rat_of_int m * 2 powi j"
    unfolding binary64_def by blast
  show ?thesis
  proof (cases "k \<le> j")
    case True
    have yk: "y = rat_of_int (m * 2 ^ nat (j - k)) * 2 powi k"
      unfolding yv using p2_multiple [OF True] by simp
    show ?thesis
      unfolding yk by (rule nearest_multiple [OF p2_pos n])
  next
    case False
    with j k have e: "- 1022 < e" and ke: "k = e - 52" by auto
    have "rat_of_int \<bar>m\<bar> < rat_of_int (2 ^ 53)"
      using m by (simp only: of_int_less_iff)
    then have "\<bar>rat_of_int m\<bar> * 2 powi j < rat_of_int (2 ^ 53) * 2 powi j"
      using p2_pos [of j] by simp
    also have "rat_of_int (2 ^ 53) * 2 powi j = 2 powi (53 + j)"
      using p2_add [of 53 j] by simp
    also have "\<dots> \<le> 2 powi e"
      using False ke by (intro p2_mono) simp
    finally have "\<bar>y\<bar> < 2 powi e"
      unfolding yv using p2_pos [of j] by (simp add: abs_mult)
    then have yq: "y < 2 powi e" by simp
    have "(2::rat) powi e = rat_of_int (2 ^ 52) * 2 powi k"
      unfolding ke using p2_multiple [of "e - 52" e] by simp
    with nearest_multiple [OF p2_pos n, of "2 ^ 52"]
    have "\<bar>rat_of_nat n * 2 powi k - q\<bar> \<le> \<bar>2 powi e - q\<bar>" by simp
    with yq q1 show ?thesis by linarith
  qed
qed

lemma round_binary64:
  assumes q1: "2 powi e \<le> q" and q2: "q < 2 powi (e + 1)"
    and k: "k = max e (- 1022) - 52"
    and n: "\<bar>rat_of_nat n - q / 2 powi k\<bar> \<le> 1 / 2"
    and x: "rat_of_nat n * 2 powi k < 2 powi 1024"
  shows "binary64 (rat_of_nat n * 2 powi k)"
proof -
  have q0: "0 < q" using q1 p2_pos [of e] by linarith
  show ?thesis
  proof (cases "- 1022 \<le> e")
    case True
    with k have ke: "k = e - 52" by simp
    have lo: "2 ^ 52 \<le> n" using round_lower [OF q1 n [unfolded ke]] .
    then have n0: "n \<noteq> 0" by auto
    have pe: "(2::rat) powi e = rat_of_int (2 ^ 52) * 2 powi k"
      unfolding ke using p2_multiple [of "e - 52" e] by simp
    have pe1: "(2::rat) powi (e + 1) = rat_of_int (2 ^ 53) * 2 powi k"
      unfolding ke using p2_multiple [of "e - 52" "e + 1"] by simp
    have "rat_of_int (2 ^ 52) \<le> rat_of_nat n"
      using lo by (metis of_int_of_nat_eq of_nat_le_iff of_nat_numeral of_nat_power)
    then have "2 powi e \<le> rat_of_nat n * 2 powi k"
      unfolding pe using p2_pos [of k] by (simp add: mult_right_mono)
    with x have "(2::rat) powi e < 2 powi 1024" by linarith
    then have e1: "e < 1024"
      using p2_mono [of 1024 e] by (cases "e < 1024") auto
    from round_upper [OF q2 q0 n] n0
    have "rat_of_nat n * 2 powi k \<le> rat_of_int (2 ^ 53) * 2 powi k" by (simp add: pe1)
    then have hi: "int n \<le> 2 ^ 53" by (rule mult_p2_le_cancel)
    show ?thesis
    proof (cases "int n = 2 ^ 53")
      case False
      with hi have "\<bar>int n\<bar> < 2 ^ 53" by simp
      moreover have "- 1074 \<le> k" "k \<le> 971" using True e1 ke by simp_all
      ultimately show ?thesis by (rule binary64I) simp
    next
      case eq: True
      then have xv: "rat_of_nat n * 2 powi k = 2 powi (e + 1)"
        unfolding pe1 by (metis of_int_of_nat_eq)
      with x have "(2::rat) powi (e + 1) < 2 powi 1024" by simp
      then have e2: "e + 1 < 1024"
        using p2_mono [of 1024 "e + 1"] by (cases "e + 1 < 1024") auto
      have "(2::rat) powi (e + 1) = rat_of_int (2 ^ 52) * 2 powi (k + 1)"
        unfolding ke using p2_multiple [of "e - 51" "e + 1"] by (simp add: algebra_simps)
      moreover have "\<bar>(2::int) ^ 52\<bar> < 2 ^ 53" by simp
      moreover have "- 1074 \<le> k + 1" "k + 1 \<le> 971" using True e2 ke by simp_all
      ultimately show ?thesis unfolding xv by (intro binary64I [of "2 ^ 52" "k + 1"]) simp_all
    qed
  next
    case False
    with k have kv: "k = - 1074" by simp
    have "int n \<le> 2 ^ 52"
    proof (cases "n = 0")
      case True
      then show ?thesis by simp
    next
      case n0: False
      with round_upper [OF q2 q0 n]
      have "rat_of_nat n * 2 powi k \<le> 2 powi (e + 1)" by simp
      also have "(2::rat) powi (e + 1) \<le> 2 powi (- 1022)"
        using False by (intro p2_mono) simp
      also have "(2::rat) powi (- 1022) = rat_of_int (2 ^ 52) * 2 powi k"
        unfolding kv using p2_multiple [of "- 1074" "- 1022"] by simp
      finally show ?thesis by (rule mult_p2_le_cancel)
    qed
    then have "\<bar>int n\<bar> < 2 ^ 53" by simp
    moreover have "- 1074 \<le> k" "k \<le> 971" using kv by simp_all
    ultimately show ?thesis by (rule binary64I) simp
  qed
qed

lemma binary64_zero: "binary64 0"
  by (rule binary64I [of 0 0]) simp_all

lemma binary64_minus:
  assumes "binary64 y"
  shows "binary64 (- y)"
proof -
  from assms obtain m e where "\<bar>m\<bar> < 2 ^ 53" "- 1074 \<le> e" "e \<le> 971"
    and "y = rat_of_int m * 2 powi e"
    unfolding binary64_def by blast
  then show ?thesis by (intro binary64I [of "- m" e]) simp_all
qed

text \<open>The quantities of one call of \<open>true_divide\<close> on nonzero arguments.\<close>

lemma true_divide_cases:
  assumes a: "a \<noteq> 0" and b: "b \<noteq> 0"
  obtains e k n x0 where
    "2 powi e \<le> \<bar>rat_of_int a / rat_of_int b\<bar>"
    "\<bar>rat_of_int a / rat_of_int b\<bar> < 2 powi (e + 1)"
    "k = max e (- 1022) - 52"
    "\<bar>rat_of_nat n - \<bar>rat_of_int a / rat_of_int b\<bar> / 2 powi k\<bar> \<le> 1 / 2"
    "x0 = rat_of_nat n * 2 powi k"
    "true_divide a b =
      (if 2 powi 1024 \<le> x0 then Inl OverflowError
       else Inr (if (a < 0) = (b < 0) then x0 else - x0))"
proof -
  define e where "e = floor_log2 (nat \<bar>a\<bar>) (nat \<bar>b\<bar>)"
  define k where "k = max e (- 1022) - 52"
  define n where "n = round_scaled (nat \<bar>a\<bar>) (nat \<bar>b\<bar>) k"
  define x0 where "x0 = rat_of_nat n * 2 powi k"
  have pa: "0 < nat \<bar>a\<bar>" and pb: "0 < nat \<bar>b\<bar>" using a b by simp_all
  have q: "rat_of_nat (nat \<bar>a\<bar>) / rat_of_nat (nat \<bar>b\<bar>) = \<bar>rat_of_int a / rat_of_int b\<bar>"
    by (simp add: abs_divide)
  have 1: "2 powi e \<le> \<bar>rat_of_int a / rat_of_int b\<bar>"
    and 2: "\<bar>rat_of_int a / rat_of_int b\<bar> < 2 powi (e + 1)"
    using floor_log2_bounds [OF pa pb] unfolding e_def q by blast+
  have 3: "\<bar>rat_of_nat n - \<bar>rat_of_int a / rat_of_int b\<bar> / 2 powi k\<bar> \<le> 1 / 2"
    using round_scaled_near [OF pb, of "nat \<bar>a\<bar>" k] unfolding n_def q .
  have 4: "true_divide a b =
      (if 2 powi 1024 \<le> x0 then Inl OverflowError
       else Inr (if (a < 0) = (b < 0) then x0 else - x0))"
    using a b unfolding true_divide_def x0_def n_def k_def e_def by (simp add: Let_def)
  from 1 2 k_def 3 x0_def 4 show thesis by (rule that)
qed

lemma true_divide_nearest:
  assumes b: "b \<noteq> 0" and r: "true_divide a b = Inr x"
  shows "binary64 x"
    and "binary64 y \<Longrightarrow> \<bar>x - rat_of_int a / rat_of_int b\<bar> \<le> \<bar>y - rat_of_int a / rat_of_int b\<bar>"
proof -
  have "binary64 x \<and> (binary64 y \<longrightarrow>
      \<bar>x - rat_of_int a / rat_of_int b\<bar> \<le> \<bar>y - rat_of_int a / rat_of_int b\<bar>)"
  proof (cases "a = 0")
    case True
    with b r have "x = 0" by (simp add: true_divide_def)
    with True show ?thesis by (simp add: binary64_zero)
  next
    case False
    from False b obtain e k n x0 where
      q1: "2 powi e \<le> \<bar>rat_of_int a / rat_of_int b\<bar>"
      and q2: "\<bar>rat_of_int a / rat_of_int b\<bar> < 2 powi (e + 1)"
      and k: "k = max e (- 1022) - 52"
      and n: "\<bar>rat_of_nat n - \<bar>rat_of_int a / rat_of_int b\<bar> / 2 powi k\<bar> \<le> 1 / 2"
      and x0: "x0 = rat_of_nat n * 2 powi k"
      and td: "true_divide a b =
        (if 2 powi 1024 \<le> x0 then Inl OverflowError
         else Inr (if (a < 0) = (b < 0) then x0 else - x0))"
      by (rule true_divide_cases)
    have small: "x0 < 2 powi 1024"
    proof (rule ccontr)
      assume "\<not> x0 < 2 powi 1024"
      then have "2 powi 1024 \<le> x0" by (simp only: not_less)
      then have "true_divide a b = Inl OverflowError" unfolding td by (rule if_P)
      with r show False by simp
    qed
    then have "\<not> 2 powi 1024 \<le> x0" by (simp only: not_le)
    then have "true_divide a b = Inr (if (a < 0) = (b < 0) then x0 else - x0)"
      unfolding td by (rule if_not_P)
    with r have xv: "x = (if (a < 0) = (b < 0) then x0 else - x0)" by simp
    have repr: "binary64 x0"
      unfolding x0 using q1 q2 k n small [unfolded x0] by (rule round_binary64)
    have near: "binary64 z \<Longrightarrow> \<bar>x0 - \<bar>rat_of_int a / rat_of_int b\<bar>\<bar> \<le> \<bar>z - \<bar>rat_of_int a / rat_of_int b\<bar>\<bar>" for z
      unfolding x0 using q1 q2 k n by (rule round_nearest)
    show ?thesis
    proof (cases "(a < 0) = (b < 0)")
      case True
      then have "0 \<le> rat_of_int a / rat_of_int b"
        using False b by (auto simp: divide_nonneg_nonneg divide_nonpos_nonpos)
      then have "\<bar>rat_of_int a / rat_of_int b\<bar> = rat_of_int a / rat_of_int b"
        by (rule abs_of_nonneg)
      with True xv repr near [of y] show ?thesis by simp
    next
      case diff: False
      then have "rat_of_int a / rat_of_int b \<le> 0"
        using False b by (auto simp: divide_nonneg_nonpos divide_nonpos_nonneg)
      then have qv: "\<bar>rat_of_int a / rat_of_int b\<bar> = - (rat_of_int a / rat_of_int b)"
        by (rule abs_of_nonpos)
      have "\<bar>- x0 - rat_of_int a / rat_of_int b\<bar> \<le> \<bar>y - rat_of_int a / rat_of_int b\<bar>"
        if "binary64 y"
      proof -
        from that have "binary64 (- y)" by (rule binary64_minus)
        from near [OF this] show ?thesis unfolding qv by linarith
      qed
      moreover from repr have "binary64 (- x0)" by (rule binary64_minus)
      ultimately show ?thesis using diff xv by simp
    qed
  qed
  then show "binary64 x"
    and "binary64 y \<Longrightarrow> \<bar>x - rat_of_int a / rat_of_int b\<bar> \<le> \<bar>y - rat_of_int a / rat_of_int b\<bar>"
    by simp_all
qed

lemma true_divide_returns:
  assumes b: "b \<noteq> 0" and bound: "\<bar>a\<bar> \<le> 2 ^ 31 * \<bar>b\<bar>"
  shows "\<exists>x. true_divide a b = Inr x"
proof (cases "a = 0")
  case True
  with b show ?thesis by (simp add: true_divide_def)
next
  case False
  from False b obtain e k n x0 where
    q1: "2 powi e \<le> \<bar>rat_of_int a / rat_of_int b\<bar>"
    and q2: "\<bar>rat_of_int a / rat_of_int b\<bar> < 2 powi (e + 1)"
    and k: "k = max e (- 1022) - 52"
    and n: "\<bar>rat_of_nat n - \<bar>rat_of_int a / rat_of_int b\<bar> / 2 powi k\<bar> \<le> 1 / 2"
    and x0: "x0 = rat_of_nat n * 2 powi k"
    and td: "true_divide a b =
      (if 2 powi 1024 \<le> x0 then Inl OverflowError
       else Inr (if (a < 0) = (b < 0) then x0 else - x0))"
    by (rule true_divide_cases)
  have q0: "0 < \<bar>rat_of_int a / rat_of_int b\<bar>" using q1 p2_pos [of e] by linarith
  have "rat_of_int \<bar>a\<bar> \<le> rat_of_int (2 ^ 31 * \<bar>b\<bar>)"
    using bound by (simp only: of_int_le_iff)
  then have "\<bar>rat_of_int a / rat_of_int b\<bar> \<le> 2 ^ 31"
    using b by (simp add: abs_divide field_simps)
  also have "(2::rat) ^ 31 = 2 powi 31" by simp
  finally have "(2::rat) powi e \<le> 2 powi 31" using q1 by (rule order_trans [rotated])
  then have e: "e \<le> 31"
    using p2_strict_mono [of 31 e] by (cases "e \<le> 31") auto
  have "x0 < 2 powi 1024"
  proof (cases "n = 0")
    case True
    then show ?thesis unfolding x0 using p2_pos [of 1024] by simp
  next
    case n0: False
    with round_upper [OF q2 q0 n] have "x0 \<le> 2 powi (e + 1)"
      unfolding x0 by simp
    also have "(2::rat) powi (e + 1) < 2 powi 1024"
      using e by (intro p2_strict_mono) simp
    finally show ?thesis .
  qed
  then have "\<not> 2 powi 1024 \<le> x0" by (simp only: not_le)
  then have "true_divide a b = Inr (if (a < 0) = (b < 0) then x0 else - x0)"
    unfolding td by (rule if_not_P)
  then show ?thesis by blast
qed

subsection \<open>Queries\<close>

lemma query_book_None_iff: "query_book d i = None \<longleftrightarrow> i \<notin> BM_id ` set (books d)"
  by (auto simp: query_book_def find_None_iff)

lemma query_book_Some_id: "query_book d i = Some b \<Longrightarrow> BM_id b = i \<and> b \<in> set (books d)"
  by (auto simp: query_book_def find_Some_iff)

lemma query_book_cases:
  obtains "query_book d i = None" "i \<notin> BM_id ` set (books d)"
  | b where "query_book d i = Some b" "BM_id b = i" "b \<in> set (books d)"
  by (cases "query_book d i") (auto simp: query_book_None_iff dest: query_book_Some_id)

lemma query_book_stored:
  assumes "i \<in> BM_id ` set (books d)"
  obtains b where "query_book d i = Some b" "BM_id b = i"
  using assms by (cases "query_book d i") (auto simp: query_book_None_iff dest: query_book_Some_id)

lemma find_append_fresh:
  "\<forall>x\<in>set xs. \<not> P x \<Longrightarrow> P y \<Longrightarrow> find P (xs @ [y]) = Some y"
  by (induction xs) auto

lemma find_map_update:
  assumes "find (\<lambda>x. k x = i) xs = Some b" and "k b' = i"
  shows "find (\<lambda>x. k x = i) (map (\<lambda>x. if k x = i then b' else x) xs) = Some b'"
  using assms by (induction xs) (auto split: if_splits)

subsection \<open>The sample databases, evaluated\<close>

lemma db_dune_eq:
  "db_dune = \<lparr>books = [\<lparr>BM_id = 1, BM_title = ''Dune'', BM_author = ''Herbert'',
       BM_genre = Some [], BM_year_published = Some 1965, BM_summary = Some []\<rparr>],
     reviews = [], books_id_seq = 2, reviews_id_seq = 1\<rparr>"
  by (simp add: db_dune_def add_book_def dune_def Book_init_def empty_db_def Let_def
      Book_texts_ok_def text_ok_def optional_text_ok_def int4_def)

lemma db_dune_reviewed_eq:
  "db_dune_reviewed = \<lparr>books = [\<lparr>BM_id = 1, BM_title = ''Dune'', BM_author = ''Herbert'',
       BM_genre = Some [], BM_year_published = Some 1965, BM_summary = Some []\<rparr>],
     reviews = [\<lparr>RM_id = 1, RM_book_id = 1, RM_user_id = 7, RM_review_text = ''Great'',
       RM_rating = 5\<rparr>], books_id_seq = 2, reviews_id_seq = 2\<rparr>"
  by (simp add: db_dune_reviewed_def db_dune_eq add_review_def query_book_def review_of_def
      Let_def text_ok_def int4_def)

lemma db_two_books_eq:
  "db_two_books = \<lparr>books = [\<lparr>BM_id = 1, BM_title = ''Dune'', BM_author = ''Herbert'',
       BM_genre = Some [], BM_year_published = Some 1965, BM_summary = Some []\<rparr>,
       \<lparr>BM_id = 2, BM_title = ''A'', BM_author = ''Anon'',
       BM_genre = Some [], BM_year_published = None, BM_summary = Some []\<rparr>],
     reviews = [], books_id_seq = 3, reviews_id_seq = 1\<rparr>"
  by (simp add: db_two_books_def db_dune_eq add_book_def Book_init_def Let_def
      Book_texts_ok_def text_ok_def optional_text_ok_def)

subsection \<open>The invariant holds initially and every handler keeps it\<close>

lemma wf_empty_db: "wf_db empty_db"
  by (simp add: wf_db_def empty_db_def)

lemma wf_add_book: "wf_db d \<Longrightarrow> wf_db (snd (add_book d book))"
  by (cases "Integer_column (B_year_published book)")
     (auto simp: add_book_def wf_db_def Let_def list_all_iff list_ex_iff)

lemma wf_update_book: "wf_db d \<Longrightarrow> wf_db (snd (update_book d i book))"
proof (cases "query_book d i")
  case None
  then show "wf_db d \<Longrightarrow> ?thesis" by (simp add: update_book_def)
next
  case (Some b)
  assume wf: "wf_db d"
  show ?thesis
  proof (cases "Integer_column (B_year_published book)")
    case (Inl e)
    with Some wf show ?thesis by (simp add: update_book_def)
  next
    case (Inr y)
    show ?thesis
    proof (cases "Book_texts_ok book")
    case False
    with Some wf show ?thesis by (simp add: update_book_def)
    next
    case texts: True
    define b' where "b' = b\<lparr>BM_title := B_title book, BM_author := B_author book,
      BM_genre := B_genre book, BM_year_published := y, BM_summary := B_summary book\<rparr>"
    define f where "f = (\<lambda>x. if BM_id x = BM_id b then b' else x)"
    have ids: "BM_id (f x) = BM_id x" for x by (simp add: f_def b'_def)
    have upd: "snd (update_book d i book) = d\<lparr>books := map f (books d)\<rparr>"
      using Some Inr texts by (simp add: update_book_def Let_def f_def b'_def)
    have comp: "BM_id \<circ> f = BM_id"
      by (rule ext) (simp add: ids)
    have fk: "(\<exists>x\<in>set (books d). BM_id (f x) = k) = (\<exists>x\<in>set (books d). BM_id x = k)" for k
      by (simp add: ids)
    show ?thesis
      using wf unfolding upd wf_db_def
      by (simp add: list_all_iff list_ex_iff ids comp fk)
    qed
  qed
qed

lemma wf_delete_book: "wf_db d \<Longrightarrow> wf_db (snd (delete_book d i))"
proof (cases "query_book d i")
  case None
  then show "wf_db d \<Longrightarrow> ?thesis" by (simp add: delete_book_def)
next
  case (Some b)
  assume wf: "wf_db d"
  show ?thesis
  proof (cases "list_ex (\<lambda>r. RM_book_id r = BM_id b) (reviews d)")
    case True
    with Some wf show ?thesis by (simp add: delete_book_def)
  next
    case False
    then have unref: "\<forall>r\<in>set (reviews d). RM_book_id r \<noteq> BM_id b"
      by (simp add: list_ex_iff)
    have del: "snd (delete_book d i) = d\<lparr>books := filter (\<lambda>x. BM_id x \<noteq> BM_id b) (books d)\<rparr>"
      using Some False by (simp add: delete_book_def)
    have fk: "\<exists>x. x \<in> set (books d) \<and> BM_id x \<noteq> BM_id b \<and> BM_id x = RM_book_id r"
      if "r \<in> set (reviews d)" for r
    proof -
      from wf that obtain x where "x \<in> set (books d)" "BM_id x = RM_book_id r"
        by (auto simp: wf_db_def list_all_iff list_ex_iff)
      moreover from unref that have "RM_book_id r \<noteq> BM_id b" by simp
      ultimately show ?thesis by (intro exI [of _ x]) simp
    qed
    show ?thesis
      using wf unfolding del wf_db_def
      by (simp add: list_all_iff list_ex_iff distinct_map_filter fk)
  qed
qed

lemma wf_add_review: "wf_db d \<Longrightarrow> wf_db (snd (add_review d i review))"
  by (cases "query_book d i")
     (auto simp: add_review_def wf_db_def Let_def list_all_iff list_ex_iff
           dest: query_book_Some_id)

lemma wf_add_reviews: "wf_db d \<Longrightarrow> wf_db (add_reviews d i rs)"
  by (induction rs arbitrary: d) (simp_all add: wf_add_review)

subsection \<open>Books: create, update, delete\<close>

text \<open>
  A request whose texts and year the store accepts is stored, and the book fetched by the
  returned identifier is the body the create returned: the request's fields and the new
  identifier.
\<close>

lemma Integer_column_roundtrip:
  "Integer_column v = Inr y \<Longrightarrow> (case y of None \<Rightarrow> YearNone | Some n \<Rightarrow> YearInt n) = v"
  by (cases v) (auto split: if_splits)

lemma add_book_then_get_book:
  assumes "wf_db d" and "Book_texts_ok book" and "Integer_column (B_year_published book) = Inr y"
  shows "\<exists>n. add_book d book = (Inr (book\<lparr>B_id := Some n\<rparr>), snd (add_book d book))
           \<and> get_book (snd (add_book d book)) n
               = (Inr (book\<lparr>B_id := Some n\<rparr>), snd (add_book d book))"
proof -
  note y = assms(3)
  note roundtrip = Integer_column_roundtrip [OF y]
  define row where "row = \<lparr>BM_id = books_id_seq d, BM_title = B_title book,
    BM_author = B_author book, BM_genre = B_genre book,
    BM_year_published = y, BM_summary = B_summary book\<rparr>"
  have body: "Book_from_orm row = book\<lparr>B_id := Some (books_id_seq d)\<rparr>"
    by (simp add: Book_from_orm_def row_def roundtrip)
  have added: "add_book d book =
      (Inr (Book_from_orm row), d\<lparr>books := books d @ [row], books_id_seq := books_id_seq d + 1\<rparr>)"
    using assms(2) by (simp add: add_book_def y row_def Let_def)
  have fresh: "\<forall>x\<in>set (books d). \<not> BM_id x = books_id_seq d"
    using assms(1) by (auto simp: wf_db_def list_all_iff)
  have "query_book (snd (add_book d book)) (books_id_seq d) = Some row"
    using find_append_fresh [OF fresh, of row] by (simp add: added query_book_def row_def)
  then show ?thesis
    by (intro exI [of _ "books_id_seq d"]) (simp add: get_book_def added body)
qed

text \<open>
  Claim C2, at the example of the specification, \<^verbatim>\<open>POST /books\<close> with
  \<^verbatim>\<open>{title: "Dune", author: "Herbert"}\<close>: the year of the request object is the default of the
  class, the empty string, which the integer column does not take. The create raises, returns no
  record and no identifier, and stores nothing.
\<close>

theorem add_book_default_year_rejected:
  "add_book empty_db (Book_init ''Dune'' ''Herbert'') = (Inl DataError, empty_db)"
  by (simp add: add_book_def Book_init_def Book_texts_ok_def text_ok_def optional_text_ok_def)

text \<open>
  An update whose texts and year the store accepts overwrites the five mutable fields, and the
  book fetched afterwards is the request with the identifier of the path; an update of an
  identifier that is not stored is Not-Found.
\<close>

lemma update_book_then_get_book:
  assumes "i \<in> BM_id ` set (books d)" and "Book_texts_ok book"
    and "Integer_column (B_year_published book) = Inr y"
  shows "update_book d i book = (Inr (book\<lparr>B_id := Some i\<rparr>), snd (update_book d i book))
       \<and> get_book (snd (update_book d i book)) i
           = (Inr (book\<lparr>B_id := Some i\<rparr>), snd (update_book d i book))"
proof -
  from assms(1) obtain b where b: "query_book d i = Some b" and id: "BM_id b = i"
    by (rule query_book_stored)
  note y = assms(3)
  note roundtrip = Integer_column_roundtrip [OF y]
  define b' where "b' = b\<lparr>BM_title := B_title book, BM_author := B_author book,
      BM_genre := B_genre book, BM_year_published := y, BM_summary := B_summary book\<rparr>"
  have body: "Book_from_orm b' = book\<lparr>B_id := Some i\<rparr>"
    by (simp add: Book_from_orm_def b'_def roundtrip id)
  have upd: "update_book d i book =
      (Inr (Book_from_orm b'), d\<lparr>books := map (\<lambda>x. if BM_id x = i then b' else x) (books d)\<rparr>)"
    using b y id assms(2) by (simp add: update_book_def Let_def b'_def)
  have "BM_id b' = i" by (simp add: b'_def id)
  with b have "query_book (snd (update_book d i book)) i = Some b'"
    unfolding upd query_book_def by (simp add: find_map_update)
  then show ?thesis
    by (simp add: get_book_def upd body)
qed

lemma update_book_missing:
  "i \<notin> BM_id ` set (books d) \<Longrightarrow>
     update_book d i book = (Inl (HTTPException 404 ''Book not found''), d)"
  by (simp add: update_book_def query_book_None_iff [symmetric])

text \<open>
  Claim C3, at \<^verbatim>\<open>PUT /books/1\<close> with \<^verbatim>\<open>{title: "Dune Messiah", author: "Frank Herbert"}\<close> on
  the database that holds Dune as book 1: the year of the request object is the empty string
  again, the update raises, no field is overwritten, and the fetch afterwards returns the old
  record.
\<close>

theorem update_book_default_year_rejected:
  "update_book db_dune 1 (Book_init ''Dune Messiah'' ''Frank Herbert'') = (Inl DataError, db_dune)
   \<and> fst (get_book db_dune 1) = Inr (dune\<lparr>B_id := Some 1\<rparr>)"
  by (simp add: db_dune_eq update_book_def get_book_def query_book_def Book_init_def
      Book_from_orm_def dune_def Book_texts_ok_def text_ok_def optional_text_ok_def)

text \<open>
  Claim C4 as stated fails on a book that has a review: the delete is rejected, and the fetch
  afterwards still returns the book.
\<close>

theorem delete_book_referenced_counterexample:
  "1 \<in> BM_id ` set (books db_dune_reviewed)
   \<and> delete_book db_dune_reviewed 1 = (Inl IntegrityError, db_dune_reviewed)
   \<and> fst (get_book (snd (delete_book db_dune_reviewed 1)) 1) = Inr (dune\<lparr>B_id := Some 1\<rparr>)"
  by (simp add: db_dune_reviewed_eq delete_book_def get_book_def query_book_def
      Book_from_orm_def dune_def Book_init_def)

text \<open>
  Claim C4, amended: for a stored book that no review references, the delete succeeds and a
  fetch of the identifier afterwards is Not-Found; for a stored book that a review references,
  the delete raises and the database is unchanged; for an identifier that is not stored the
  delete is Not-Found and the database is unchanged; and in every case the reviews table after
  the delete is the reviews table before it.
\<close>

theorem delete_book_then_get_book:
  "(i \<in> BM_id ` set (books d) \<and> i \<notin> RM_book_id ` set (reviews d) \<longrightarrow>
      fst (delete_book d i) = Inr ''Book deleted successfully''
      \<and> fst (get_book (snd (delete_book d i)) i) = Inl (HTTPException 404 ''Book not found''))
   \<and> (i \<in> BM_id ` set (books d) \<and> i \<in> RM_book_id ` set (reviews d) \<longrightarrow>
      delete_book d i = (Inl IntegrityError, d))
   \<and> (i \<notin> BM_id ` set (books d) \<longrightarrow>
      delete_book d i = (Inl (HTTPException 404 ''Book not found''), d))
   \<and> reviews (snd (delete_book d i)) = reviews d"
proof (rule query_book_cases [of d i])
  assume "query_book d i = None" "i \<notin> BM_id ` set (books d)"
  then show ?thesis by (simp add: delete_book_def)
next
  fix b assume b: "query_book d i = Some b" "BM_id b = i" "b \<in> set (books d)"
  have ref: "list_ex (\<lambda>r. RM_book_id r = i) (reviews d) = (i \<in> RM_book_id ` set (reviews d))"
    by (auto simp: list_ex_iff)
  have gone: "query_book (d\<lparr>books := filter (\<lambda>x. BM_id x \<noteq> i) (books d)\<rparr>) i = None"
    by (auto simp: query_book_None_iff)
  from b have "i \<in> BM_id ` set (books d)" by auto
  with b ref gone show ?thesis
    by (simp add: delete_book_def get_book_def)
qed

theorem delete_book_then_get_book_witness:
  "1 \<in> BM_id ` set (books db_dune) \<and> 1 \<notin> RM_book_id ` set (reviews db_dune)
   \<and> fst (delete_book db_dune 1) = Inr ''Book deleted successfully''
   \<and> fst (get_book (snd (delete_book db_dune 1)) 1) = Inl (HTTPException 404 ''Book not found'')
   \<and> 1 \<in> RM_book_id ` set (reviews db_dune_reviewed)
   \<and> delete_book db_dune_reviewed 1 = (Inl IntegrityError, db_dune_reviewed)
   \<and> 2 \<notin> BM_id ` set (books db_dune)
   \<and> delete_book db_dune 2 = (Inl (HTTPException 404 ''Book not found''), db_dune)"
proof -
  have h1: "1 \<in> BM_id ` set (books db_dune) \<and> 1 \<notin> RM_book_id ` set (reviews db_dune)"
    by (simp add: db_dune_eq)
  have h2: "1 \<in> BM_id ` set (books db_dune_reviewed)
      \<and> 1 \<in> RM_book_id ` set (reviews db_dune_reviewed)"
    by (simp add: db_dune_reviewed_eq)
  have h3: "2 \<notin> BM_id ` set (books db_dune)"
    by (simp add: db_dune_eq)
  from delete_book_then_get_book [of 1 db_dune] delete_book_then_get_book [of 1 db_dune_reviewed]
    delete_book_then_get_book [of 2 db_dune] h1 h2 h3
  show ?thesis by blast
qed

subsection \<open>Reviews\<close>

text \<open>
  Claim C5: adding a review to an identifier that no stored book has returns Not-Found and the
  database after the request, both tables and both sequences, is the database before it.
\<close>

theorem add_review_book_not_found:
  assumes "i \<notin> BM_id ` set (books d)"
  shows "add_review d i review = (Inl (HTTPException 404 ''Book not found''), d)"
  using assms by (simp add: add_review_def query_book_None_iff [symmetric])

theorem add_review_book_not_found_witness:
  "2 \<notin> BM_id ` set (books db_dune)
   \<and> add_review db_dune 2 (review_of 7 5 ''Great'')
       = (Inl (HTTPException 404 ''Book not found''), db_dune)"
proof -
  have h: "2 \<notin> BM_id ` set (books db_dune)" by (simp add: db_dune_eq)
  from add_review_book_not_found [OF h] h show ?thesis by simp
qed

text \<open>
  Claim C6: listing the reviews of an identifier is Not-Found exactly when no persisted review
  has that \<^verbatim>\<open>book_id\<close>, whether or not the book is stored; otherwise it returns all the
  matching reviews, in storage order; and it never returns the empty list.
\<close>

theorem get_reviews_not_found_iff:
  "(fst (get_reviews d i) = Inl (HTTPException 404 ''No reviews found for this book''))
     = (filter_mset (\<lambda>r. RM_book_id r = i) (mset (reviews d)) = {#})
   \<and> (filter_mset (\<lambda>r. RM_book_id r = i) (mset (reviews d)) \<noteq> {#} \<longrightarrow>
        fst (get_reviews d i)
          = Inr (map Review_from_orm (filter (\<lambda>r. RM_book_id r = i) (reviews d))))
   \<and> fst (get_reviews d i) \<noteq> Inr []"
  by (auto simp: get_reviews_def query_reviews_def Let_def filter_mset_eq_conv
      filter_empty_conv mset_filter [symmetric] simp del: mset_filter)

theorem get_reviews_not_found_iff_witness:
  "filter_mset (\<lambda>r. RM_book_id r = 1) (mset (reviews db_dune_reviewed)) \<noteq> {#}
   \<and> fst (get_reviews db_dune_reviewed 1)
       = Inr [\<lparr>R_id = Some 1, R_book_id = Some 1, R_user_id = 7, R_review_text = ''Great'',
               R_rating = 5\<rparr>]
   \<and> filter_mset (\<lambda>r. RM_book_id r = 2) (mset (reviews db_dune_reviewed)) = {#}
   \<and> fst (get_reviews db_dune_reviewed 2)
       = Inl (HTTPException 404 ''No reviews found for this book'')"
proof -
  have h1: "filter_mset (\<lambda>r. RM_book_id r = 1) (mset (reviews db_dune_reviewed)) \<noteq> {#}"
    by (simp add: db_dune_reviewed_eq)
  have h2: "filter_mset (\<lambda>r. RM_book_id r = 2) (mset (reviews db_dune_reviewed)) = {#}"
    by (simp add: db_dune_reviewed_eq)
  from get_reviews_not_found_iff [of db_dune_reviewed 1]
    get_reviews_not_found_iff [of db_dune_reviewed 2] h1 h2
  show ?thesis by (simp add: db_dune_reviewed_eq Review_from_orm_def)
qed

text \<open>In a database that satisfies the invariant, an identifier that no stored book has is
  referenced by no review, so listing its reviews is Not-Found.\<close>

lemma get_reviews_missing_book:
  assumes "wf_db d" and "i \<notin> BM_id ` set (books d)"
  shows "get_reviews d i = (Inl (HTTPException 404 ''No reviews found for this book''), d)"
proof -
  have "RM_book_id r \<noteq> i" if "r \<in> set (reviews d)" for r
  proof -
    from assms(1) that obtain b where "b \<in> set (books d)" "BM_id b = RM_book_id r"
      by (auto simp: wf_db_def list_all_iff list_ex_iff)
    with assms(2) show ?thesis by (metis imageI)
  qed
  then have "query_reviews d i = []"
    by (simp add: query_reviews_def filter_empty_conv)
  then show ?thesis by (simp add: get_reviews_def)
qed

text \<open>
  Claim C7 as stated fails on a rating outside the range of the column: the store rejects the
  row and nothing is stored.
\<close>

theorem add_review_rating_out_of_range_counterexample:
  "1 \<in> BM_id ` set (books db_dune)
   \<and> add_review db_dune 1 (review_of 7 2147483648 ''Great'') = (Inl DataError, db_dune)"
  by (simp add: db_dune_eq add_review_def query_book_def review_of_def text_ok_def int4_def)

text \<open>
  Claim C7, amended: for a stored book and a review in the request whose user and rating are in
  the range of the integer columns and whose text has no NUL character, the row appended to the
  reviews table has the identifier of the path as its \<^verbatim>\<open>book_id\<close>, whatever \<^verbatim>\<open>book_id\<close> the
  request carries, and the rating of the request, be it negative or outside 1 to 5; the response
  shows the same. A review whose user or rating is outside the range is rejected with
  \<^verbatim>\<open>DataError\<close> and the database is unchanged.
\<close>

theorem add_review_path_id_and_rating:
  assumes "i \<in> BM_id ` set (books d)" and "text_ok (R_review_text review)"
  shows "(int4 (R_user_id review) \<and> int4 (R_rating review) \<longrightarrow>
           (\<exists>rv row. add_review d i review
              = (Inr rv, d\<lparr>reviews := reviews d @ [row],
                           reviews_id_seq := reviews_id_seq d + 1\<rparr>)
            \<and> RM_book_id row = i \<and> RM_rating row = R_rating review
            \<and> R_book_id rv = Some i \<and> R_rating rv = R_rating review))
       \<and> (\<not> (int4 (R_user_id review) \<and> int4 (R_rating review)) \<longrightarrow>
           add_review d i review = (Inl DataError, d))"
proof -
  from assms(1) obtain b where b: "query_book d i = Some b" "BM_id b = i"
    by (rule query_book_stored)
  show ?thesis
  proof (cases "int4 (R_user_id review) \<and> int4 (R_rating review)")
    case True
    with b assms(2) show ?thesis
      by (intro conjI impI
            exI [of _ "Review_from_orm \<lparr>RM_id = reviews_id_seq d, RM_book_id = i,
              RM_user_id = R_user_id review, RM_review_text = R_review_text review,
              RM_rating = R_rating review\<rparr>"]
            exI [of _ "\<lparr>RM_id = reviews_id_seq d, RM_book_id = i,
              RM_user_id = R_user_id review, RM_review_text = R_review_text review,
              RM_rating = R_rating review\<rparr>"])
         (simp_all add: add_review_def Let_def Review_from_orm_def)
  next
    case False
    with b assms(2) have "add_review d i review = (Inl DataError, d)"
      by (auto simp: add_review_def)
    with False show ?thesis by blast
  qed
qed

theorem add_review_path_id_and_rating_witness:
  "1 \<in> BM_id ` set (books db_dune) \<and> text_ok ''Bad'' \<and> int4 7 \<and> int4 (- 40)
   \<and> (\<exists>rv row. add_review db_dune 1 ((review_of 7 (- 40) ''Bad'')\<lparr>R_book_id := Some 99\<rparr>)
          = (Inr rv, db_dune\<lparr>reviews := reviews db_dune @ [row],
                              reviews_id_seq := reviews_id_seq db_dune + 1\<rparr>)
        \<and> RM_book_id row = 1 \<and> RM_rating row = - 40
        \<and> R_book_id rv = Some 1 \<and> R_rating rv = - 40)
   \<and> \<not> int4 2147483648
   \<and> add_review db_dune 1 (review_of 7 2147483648 ''Bad'') = (Inl DataError, db_dune)"
proof -
  have h: "1 \<in> BM_id ` set (books db_dune)" by (simp add: db_dune_eq)
  have t: "text_ok ''Bad''" by (simp add: text_ok_def)
  have r: "int4 7 \<and> int4 (- 40) \<and> \<not> int4 2147483648" by (simp add: int4_def)
  from add_review_path_id_and_rating
         [of 1 db_dune "(review_of 7 (- 40) ''Bad'')\<lparr>R_book_id := Some 99\<rparr>"]
       add_review_path_id_and_rating [of 1 db_dune "review_of 7 2147483648 ''Bad''"]
       h t r
  show ?thesis by (simp add: review_of_def)
qed

subsection \<open>The summary of a book\<close>

lemma books_add_reviews: "books (add_reviews d i rs) = books d"
  by (induction rs arbitrary: d) (auto simp: add_review_def Let_def split: option.split)

lemma query_book_add_review:
  "query_book (snd (add_review d i r)) j = query_book d j"
  by (simp add: query_book_def add_review_def Let_def split: option.split)

lemma query_book_add_reviews: "query_book (add_reviews d i rs) j = query_book d j"
  by (simp add: query_book_def books_add_reviews)

lemma persisted_ratings_add_review:
  "query_book d i = Some b \<Longrightarrow>
     persisted_ratings (snd (add_review d i r)) i
       = (if Review_ok r then add_mset (R_rating r) (persisted_ratings d i)
          else persisted_ratings d i)"
  by (auto simp: persisted_ratings_def add_review_def Let_def Review_ok_def
      dest: query_book_Some_id)

lemma persisted_ratings_add_reviews:
  "query_book d i = Some b \<Longrightarrow>
     persisted_ratings (add_reviews d i rs) i
       = persisted_ratings d i + image_mset R_rating (filter_mset Review_ok (mset rs))"
proof (induction rs arbitrary: d)
  case Nil
  then show ?case by simp
next
  case (Cons r rs)
  have "query_book (snd (add_review d i r)) i = Some b"
    using Cons.prems by (simp add: query_book_add_review)
  from Cons.IH [OF this] Cons.prems show ?case
    by (simp add: persisted_ratings_add_review)
qed

lemma persisted_ratings_query:
  "persisted_ratings d i = mset (map RM_rating (query_reviews d i))"
  by (simp add: persisted_ratings_def query_reviews_def)

lemma get_summary_not_found:
  "i \<notin> BM_id ` set (books d) \<Longrightarrow>
     get_summary invoke d i = (Inl (HTTPException 404 ''Book not found''), d)"
  "query_book d i = Some b \<Longrightarrow> persisted_ratings d i = {#} \<Longrightarrow>
     get_summary invoke d i = (Inl (HTTPException 404 ''No reviews found for this book''), d)"
  by (simp_all add: get_summary_def query_book_None_iff [symmetric] persisted_ratings_query)

text \<open>Ratings in the range of their column have a mean in that range, so the division does not
  overflow.\<close>

lemma sum_list_bound:
  "\<forall>x\<in>set xs. \<bar>x\<bar> \<le> c \<Longrightarrow> \<bar>sum_list xs\<bar> \<le> c * int (length xs)" for c :: int
  by (induction xs) (auto simp: algebra_simps)

lemma int4_abs: "int4 n \<Longrightarrow> \<bar>n\<bar> \<le> 2 ^ 31"
  unfolding int4_def by simp linarith

lemma wf_ratings_bound:
  assumes "wf_db d"
  shows "\<bar>sum_list (map RM_rating (query_reviews d i))\<bar>
           \<le> 2 ^ 31 * \<bar>int (length (query_reviews d i))\<bar>"
proof -
  have "\<forall>x\<in>set (map RM_rating (query_reviews d i)). \<bar>x\<bar> \<le> 2 ^ 31"
  proof
    fix x assume "x \<in> set (map RM_rating (query_reviews d i))"
    then obtain r where "r \<in> set (reviews d)" and "x = RM_rating r"
      by (auto simp: query_reviews_def)
    moreover from this assms have "int4 (RM_rating r)"
      by (simp add: wf_db_def list_all_iff)
    ultimately show "\<bar>x\<bar> \<le> 2 ^ 31" using int4_abs by blast
  qed
  from sum_list_bound [OF this] show ?thesis by simp
qed

lemma get_summary_rating:
  assumes "wf_db d" and "query_book d i = Some b" and "persisted_ratings d i \<noteq> {#}"
    and "invoke (summary_prompt (query_reviews d i)) = Inr text"
  shows "\<exists>x. true_divide (sum_mset (persisted_ratings d i)) (int (size (persisted_ratings d i)))
               = Inr x
           \<and> get_summary invoke d i = (Inr \<lparr>S_summary = text, S_rating = x\<rparr>, d)"
proof -
  let ?rs = "query_reviews d i"
  have ne: "?rs \<noteq> []"
    using assms(3) by (auto simp: persisted_ratings_query)
  have s: "sum_mset (persisted_ratings d i) = sum_list (map RM_rating ?rs)"
    unfolding persisted_ratings_query by (rule sum_mset_sum_list)
  have n: "size (persisted_ratings d i) = length ?rs"
    by (simp add: persisted_ratings_query)
  have "int (length ?rs) \<noteq> 0" using ne by simp
  from true_divide_returns [OF this wf_ratings_bound [OF assms(1)]]
  obtain x where x: "true_divide (sum_list (map RM_rating ?rs)) (int (length ?rs)) = Inr x"
    by blast
  have "get_summary invoke d i = (Inr \<lparr>S_summary = text, S_rating = x\<rparr>, d)"
    using assms(2,4) ne x by (simp add: get_summary_def Let_def)
  with x show ?thesis unfolding s n by blast
qed

lemma db_dune_112_eq:
  "db_dune_112 = \<lparr>books = [\<lparr>BM_id = 1, BM_title = ''Dune'', BM_author = ''Herbert'',
       BM_genre = Some [], BM_year_published = Some 1965, BM_summary = Some []\<rparr>],
     reviews = [\<lparr>RM_id = 1, RM_book_id = 1, RM_user_id = 7, RM_review_text = ''Poor'',
                 RM_rating = 1\<rparr>,
                \<lparr>RM_id = 2, RM_book_id = 1, RM_user_id = 8, RM_review_text = ''Bad'',
                 RM_rating = 1\<rparr>,
                \<lparr>RM_id = 3, RM_book_id = 1, RM_user_id = 9, RM_review_text = ''Dull'',
                 RM_rating = 2\<rparr>],
     books_id_seq = 2, reviews_id_seq = 4\<rparr>"
  by (simp add: db_dune_112_def db_dune_eq add_review_def query_book_def review_of_def
      Let_def text_ok_def int4_def)

text \<open>
  Claim C1 as stated fails on a book with the ratings 1, 1 and 2: their arithmetic mean is 4/3,
  and the rating returned is the float nearest to it, which is another number.
\<close>

theorem get_summary_rating_counterexample:
  "fst (get_summary llm_ok db_dune_112 1)
     = Inr \<lparr>S_summary = ''ok'', S_rating = 6004799503160661 / 4503599627370496\<rparr>
   \<and> arithmetic_mean (persisted_ratings db_dune_112 1) = 4 / 3
   \<and> (6004799503160661 / 4503599627370496 :: rat) \<noteq> 4 / 3"
  by (simp add: db_dune_112_eq get_summary_def query_book_def query_reviews_def
      true_divide_def floor_log2_def round_scaled_def round_half_even_def Let_def
      llm_ok_def arithmetic_mean_def persisted_ratings_def)

text \<open>
  Claim C1, amended: take a stored book in a database that satisfies the invariant and post the
  reviews \<open>rs\<close> to it, or the same reviews in another order \<open>rs'\<close>. When the book then has a review
  and the text-generation client answers, the summary endpoint returns, and its rating is a
  binary64 number that is at least as close to the arithmetic mean of all the ratings persisted
  for the book as any other binary64 number (so it is the mean itself when the mean is such a
  number); and the rating is the same for both orders. With \<open>rs\<close> empty this is the statement
  for every such database.
\<close>

theorem get_summary_rating_nearest_mean:
  assumes wf: "wf_db d"
    and book: "query_book d i = Some b"
    and same: "mset rs' = mset rs"
    and nonempty: "persisted_ratings (add_reviews d i rs) i \<noteq> {#}"
    and llm: "invoke (summary_prompt (query_reviews (add_reviews d i rs) i)) = Inr text"
    and llm': "invoke' (summary_prompt (query_reviews (add_reviews d i rs') i)) = Inr text'"
  shows "\<exists>s s'. fst (get_summary invoke (add_reviews d i rs) i) = Inr s
           \<and> fst (get_summary invoke' (add_reviews d i rs') i) = Inr s'
           \<and> binary64 (S_rating s)
           \<and> (\<forall>y. binary64 y \<longrightarrow>
                 \<bar>S_rating s - arithmetic_mean (persisted_ratings (add_reviews d i rs) i)\<bar>
                 \<le> \<bar>y - arithmetic_mean (persisted_ratings (add_reviews d i rs) i)\<bar>)
           \<and> S_rating s' = S_rating s"
proof -
  let ?M = "persisted_ratings (add_reviews d i rs) i"
  have eq: "persisted_ratings (add_reviews d i rs') i = ?M"
    using book same by (simp add: persisted_ratings_add_reviews)
  have b1: "query_book (add_reviews d i rs) i = Some b"
    and b2: "query_book (add_reviews d i rs') i = Some b"
    using book by (simp_all add: query_book_add_reviews)
  have w1: "wf_db (add_reviews d i rs)" and w2: "wf_db (add_reviews d i rs')"
    using wf by (simp_all add: wf_add_reviews)
  from nonempty eq have nonempty': "persisted_ratings (add_reviews d i rs') i \<noteq> {#}" by simp
  from get_summary_rating [of _ _ _ invoke, OF w1 b1 nonempty llm]
  obtain x where x: "true_divide (sum_mset ?M) (int (size ?M)) = Inr x"
    and g: "get_summary invoke (add_reviews d i rs) i
              = (Inr \<lparr>S_summary = text, S_rating = x\<rparr>, add_reviews d i rs)"
    by blast
  from get_summary_rating [of _ _ _ invoke', OF w2 b2 nonempty' llm']
  obtain x' where x': "true_divide (sum_mset ?M) (int (size ?M)) = Inr x'"
    and g': "get_summary invoke' (add_reviews d i rs') i
              = (Inr \<lparr>S_summary = text', S_rating = x'\<rparr>, add_reviews d i rs')"
    unfolding eq by blast
  from x x' have same_rating: "x' = x" by simp
  have size: "int (size ?M) \<noteq> 0" using nonempty by simp
  have mean: "rat_of_int (sum_mset ?M) / rat_of_int (int (size ?M)) = arithmetic_mean ?M"
    by (simp add: arithmetic_mean_def)
  have repr: "binary64 x"
    using true_divide_nearest(1) [OF size x] .
  have near: "\<bar>x - arithmetic_mean ?M\<bar> \<le> \<bar>y - arithmetic_mean ?M\<bar>" if "binary64 y" for y
    using true_divide_nearest(2) [OF size x that] unfolding mean .
  show ?thesis
    using g g' same_rating repr near
    by (intro exI [of _ "\<lparr>S_summary = text, S_rating = x\<rparr>"]
          exI [of _ "\<lparr>S_summary = text', S_rating = x'\<rparr>"]) simp
qed

theorem get_summary_rating_nearest_mean_witness:
  "wf_db db_dune
   \<and> query_book db_dune 1 = Some \<lparr>BM_id = 1, BM_title = ''Dune'', BM_author = ''Herbert'',
       BM_genre = Some [], BM_year_published = Some 1965, BM_summary = Some []\<rparr>
   \<and> mset [review_of 8 2 ''Dull'', review_of 7 5 ''Great'']
       = mset [review_of 7 5 ''Great'', review_of 8 2 ''Dull'']
   \<and> persisted_ratings (add_reviews db_dune 1 [review_of 7 5 ''Great'', review_of 8 2 ''Dull'']) 1
       = {#5, 2#}
   \<and> binary64 (7 / 2)
   \<and> (\<exists>s s'. fst (get_summary llm_ok
                    (add_reviews db_dune 1 [review_of 7 5 ''Great'', review_of 8 2 ''Dull'']) 1)
                = Inr s
        \<and> fst (get_summary llm_ok
                    (add_reviews db_dune 1 [review_of 8 2 ''Dull'', review_of 7 5 ''Great'']) 1)
                = Inr s'
        \<and> S_rating s = 7 / 2 \<and> S_rating s' = 7 / 2)"
proof -
  let ?rs = "[review_of 7 5 ''Great'', review_of 8 2 ''Dull'']"
  let ?rs' = "[review_of 8 2 ''Dull'', review_of 7 5 ''Great'']"
  have h0: "wf_db db_dune"
    by (simp add: wf_db_def db_dune_eq)
  have h1: "query_book db_dune 1 = Some \<lparr>BM_id = 1, BM_title = ''Dune'', BM_author = ''Herbert'',
       BM_genre = Some [], BM_year_published = Some 1965, BM_summary = Some []\<rparr>"
    by (simp add: db_dune_eq query_book_def)
  have h2: "mset ?rs' = mset ?rs" by simp
  have h3: "persisted_ratings (add_reviews db_dune 1 ?rs) 1 = {#5, 2#}"
    unfolding persisted_ratings_add_reviews [OF h1]
    by (simp add: persisted_ratings_def db_dune_eq review_of_def Review_ok_def text_ok_def
        int4_def)
  have h3': "persisted_ratings (add_reviews db_dune 1 ?rs) 1 \<noteq> {#}"
    unfolding h3 by simp
  have h4: "llm_ok p = Inr ''ok''" for p by (simp add: llm_ok_def)
  have m: "arithmetic_mean {#5, 2#} = 7 / 2" by (simp add: arithmetic_mean_def)
  have r: "binary64 (7 / 2)"
    by (rule binary64I [of 7 "- 1"]) simp_all
  from get_summary_rating_nearest_mean [of _ _ _ _ _ llm_ok _ llm_ok, OF h0 h1 h2 h3' h4 h4]
  obtain s s' where
    s: "fst (get_summary llm_ok (add_reviews db_dune 1 ?rs) 1) = Inr s"
      "fst (get_summary llm_ok (add_reviews db_dune 1 ?rs') 1) = Inr s'"
    and near: "\<forall>y. binary64 y \<longrightarrow>
        \<bar>S_rating s - arithmetic_mean (persisted_ratings (add_reviews db_dune 1 ?rs) 1)\<bar>
        \<le> \<bar>y - arithmetic_mean (persisted_ratings (add_reviews db_dune 1 ?rs) 1)\<bar>"
    and eq: "S_rating s' = S_rating s"
    by blast
  from near r have "\<bar>S_rating s - 7 / 2\<bar> \<le> \<bar>7 / 2 - 7 / 2\<bar>"
    unfolding h3 m by blast
  then have v: "S_rating s = 7 / 2" by simp
  from s v eq have "\<exists>s s'. fst (get_summary llm_ok (add_reviews db_dune 1 ?rs) 1) = Inr s
        \<and> fst (get_summary llm_ok (add_reviews db_dune 1 ?rs') 1) = Inr s'
        \<and> S_rating s = 7 / 2 \<and> S_rating s' = 7 / 2"
    by auto
  with h0 h1 h2 h3 r show ?thesis by blast
qed

subsection \<open>Recommendations\<close>

text \<open>
  Claim C8: with no book stored the operation is Not-Found. Otherwise, whenever it returns a
  list, the prompt was built, the client answered with a text, that text itself was the
  argument of \<^verbatim>\<open>in_\<close>, and the list is exactly the stored books whose title is among the values
  of that \<^verbatim>\<open>IN\<close> expression; and it does return that list whenever those three steps succeed.
\<close>

theorem get_recommendations_raw_response_filter:
  "(books d = [] \<longrightarrow>
      get_recommendations invoke title_in d = (Inl (HTTPException 404 ''No books found''), d))
   \<and> (books d \<noteq> [] \<and> fst (get_recommendations invoke title_in d) = Inr bs \<longrightarrow>
        (\<exists>prompt response vs.
           recommendations_prompt (books d) = Inr prompt \<and> invoke prompt = Inr response
           \<and> title_in response = Inr vs
           \<and> bs = map Book_from_orm (filter (\<lambda>b. BM_title b \<in> set vs) (books d))))
   \<and> (books d \<noteq> [] \<and> recommendations_prompt (books d) = Inr prompt
        \<and> invoke prompt = Inr response \<and> title_in response = Inr vs \<longrightarrow>
        get_recommendations invoke title_in d
          = (Inr (map Book_from_orm (filter (\<lambda>b. BM_title b \<in> set vs) (books d))), d))"
  by (auto simp: get_recommendations_def split: sum.splits)

theorem get_recommendations_raw_response_filter_witness:
  "books db_two_books \<noteq> []
   \<and> recommendations_prompt (books db_two_books)
       = Inr (''Based on the following user preferences: fiction, adventure, mystery,''
              @ '' recommend books from the following list: Dune, A with summaries: , '')
   \<and> llm_titles (''Based on the following user preferences: fiction, adventure, mystery,''
              @ '' recommend books from the following list: Dune, A with summaries: , '')
       = Inr ''A, Dune''
   \<and> in_characters ''A, Dune'' = Inr [''A'', '','', '' '', ''D'', ''u'', ''n'', ''e'']
   \<and> get_recommendations llm_titles in_characters db_two_books
       = (Inr [\<lparr>B_id = Some 2, B_title = ''A'', B_author = ''Anon'', B_genre = Some '''',
                B_year_published = YearNone, B_summary = Some ''''\<rparr>], db_two_books)
   \<and> books empty_db = []
   \<and> get_recommendations llm_titles in_characters empty_db
       = (Inl (HTTPException 404 ''No books found''), empty_db)"
proof -
  let ?p = "''Based on the following user preferences: fiction, adventure, mystery,''
              @ '' recommend books from the following list: Dune, A with summaries: , ''"
  let ?vs = "[''A'', '','', '' '', ''D'', ''u'', ''n'', ''e'']"
  have h1: "books db_two_books \<noteq> []" by (simp add: db_two_books_eq)
  have h2: "recommendations_prompt (books db_two_books) = Inr ?p"
    by (simp add: db_two_books_eq recommendations_prompt_def join_optional_def
        user_preferences_def)
  have h3: "llm_titles ?p = Inr ''A, Dune''" by (simp add: llm_titles_def)
  have h4: "in_characters ''A, Dune'' = Inr ?vs" by (simp add: in_characters_def)
  have h5: "books empty_db = []" by (simp add: empty_db_def)
  have r: "map Book_from_orm (filter (\<lambda>b. BM_title b \<in> set ?vs) (books db_two_books))
      = [\<lparr>B_id = Some 2, B_title = ''A'', B_author = ''Anon'', B_genre = Some '''',
                B_year_published = YearNone, B_summary = Some ''''\<rparr>]"
    by (simp add: db_two_books_eq Book_from_orm_def)
  let ?bs = "[\<lparr>B_id = Some 2, B_title = ''A'', B_author = ''Anon'', B_genre = Some '''',
                B_year_published = YearNone, B_summary = Some ''''\<rparr>]"
  from get_recommendations_raw_response_filter
         [of db_two_books llm_titles in_characters ?bs ?p "''A, Dune''" ?vs]
       get_recommendations_raw_response_filter
         [of empty_db llm_titles in_characters ?bs ?p "''A, Dune''" ?vs]
       h1 h2 h3 h4 h5 r
  show ?thesis by simp
qed

text \<open>The join of the summaries raises when a stored summary is NULL, before the client is
  called.\<close>

lemma those_None: "None \<in> set xs \<Longrightarrow> those xs = None"
  by (induction xs) (auto split: option.splits)

lemma get_recommendations_null_summary:
  assumes "books d \<noteq> []" and "None \<in> BM_summary ` set (books d)"
  shows "get_recommendations invoke title_in d = (Inl TypeError, d)"
proof -
  have "those (map BM_summary (books d)) = None"
    using assms(2) by (simp add: those_None)
  then show ?thesis
    using assms(1)
    by (simp add: get_recommendations_def recommendations_prompt_def join_optional_def)
qed

subsection \<open>The summary of free text\<close>

text \<open>
  Claim C9, at any content and any answer of the client: the answer is a \<^verbatim>\<open>str\<close>, the handler
  reads its attribute \<^verbatim>\<open>choices\<close>, and the request ends in \<^verbatim>\<open>AttributeError\<close>; no summary is
  returned. (The handler has no database session, so nothing is persisted.)
\<close>

theorem generate_summary_raises:
  "generate_summary (\<lambda>prompt. Inr (reply prompt)) content = Inl (AttributeError ''choices'')"
  by (simp add: generate_summary_def)

subsection \<open>The read operations\<close>

text \<open>
  Claim C10: listing the books, getting a book, listing the reviews of a book and generating
  the summary of a book return the database they were given, books and reviews alike, whatever
  their result; so the generated summary is not written to the book.
\<close>

theorem read_handlers_leave_db_unchanged:
  "snd (get_books d) = d \<and> snd (get_book d i) = d \<and> snd (get_reviews d i) = d
   \<and> snd (get_summary invoke d i) = d"
  by (simp add: get_books_def get_book_def get_reviews_def get_summary_def Let_def
      split: option.split sum.split)

end
